theory Spec2Isabelle
  imports Complex_Main
begin

section \<open>Common data: errors, log records, dense vectors and matrices\<close>

text \<open>
  The solver and the objectives work on \<^verbatim>\<open>double\<close>, \<^verbatim>\<open>Eigen::VectorXd\<close> and
  \<^verbatim>\<open>Eigen::MatrixXd\<close>. A finite \<^verbatim>\<open>double\<close> is read as a \<^typ>\<open>real\<close> (rounding is
  not modelled); where the source tests \<^verbatim>\<open>std::isfinite\<close> or divides, the non-finite
  outcomes are separate constructors or error values. A failed \<^verbatim>\<open>assert\<close>, a failed
  Eigen size check and an out-of-range index are error values, never unspecified
  HOL terms.
\<close>

datatype error =
    RuntimeError string   \<comment> \<open>\<^verbatim>\<open>log_and_throw_error(msg)\<close>: logs and throws \<^verbatim>\<open>std::runtime_error\<close>\<close>
  | AssertFailed          \<comment> \<open>\<^verbatim>\<open>assert(...)\<close> or an Eigen size assertion\<close>
  | OutOfBounds           \<comment> \<open>index past the end of a \<^verbatim>\<open>std::vector\<close> or Eigen object\<close>
  | LengthError           \<comment> \<open>\<^verbatim>\<open>std::vector::assign\<close> with a negative count\<close>
  | InvalidArgument       \<comment> \<open>\<^verbatim>\<open>std::stoi\<close>: no conversion\<close>
  | OutOfRange            \<comment> \<open>\<^verbatim>\<open>std::stoi\<close> / \<^verbatim>\<open>substr\<close>: out of range\<close>
  | NullPointer           \<comment> \<open>dereference of an empty \<^verbatim>\<open>shared_ptr\<close>\<close>
  | NonFinite             \<comment> \<open>an IEEE division by zero (inf or NaN), outside the real-number model\<close>

text \<open>A record written to the logger: its level, its format string and the arguments.\<close>

datatype log_level = Error | Warn | Debug | Trace

type_synonym log_record = "log_level \<times> string \<times> int list"

type_synonym vectorXd = "real list"

text \<open>\<^verbatim>\<open>Eigen::MatrixXd\<close>: dynamic sizes and column-major coefficient storage.\<close>

record matrixXd =
  rows :: nat
  cols :: nat
  coeffs :: "real list"

definition matrix_ok :: "matrixXd \<Rightarrow> bool" where
  "matrix_ok m \<longleftrightarrow> length (coeffs m) = rows m * cols m"

definition coeff :: "matrixXd \<Rightarrow> nat \<Rightarrow> nat \<Rightarrow> real" where
  "coeff m i j = coeffs m ! (i + j * rows m)"

definition matrix_row :: "matrixXd \<Rightarrow> nat \<Rightarrow> vectorXd" where
  "matrix_row m i = map (\<lambda>j. coeff m i j) [0..<cols m]"

definition vec_zero :: "nat \<Rightarrow> vectorXd" where
  "vec_zero n = replicate n 0"

definition vec_scale :: "real \<Rightarrow> vectorXd \<Rightarrow> vectorXd" where
  "vec_scale a v = map (\<lambda>x. a * x) v"

text \<open>\<^verbatim>\<open>a += b\<close>, \<^verbatim>\<open>a - b\<close> on vectors: Eigen asserts equal sizes.\<close>

definition vec_add :: "vectorXd \<Rightarrow> vectorXd \<Rightarrow> error + vectorXd" where
  "vec_add a b = (if length a = length b then Inr (map2 (+) a b) else Inl AssertFailed)"

definition vec_sub :: "vectorXd \<Rightarrow> vectorXd \<Rightarrow> error + vectorXd" where
  "vec_sub a b = (if length a = length b then Inr (map2 (-) a b) else Inl AssertFailed)"

definition squaredNorm :: "vectorXd \<Rightarrow> real" where
  "squaredNorm v = sum_list (map (\<lambda>x. x\<^sup>2) v)"

section \<open>TransientObjective: quadrature weights over the time steps\<close>

text \<open>\<^verbatim>\<open>weights.assign(n, v)\<close> with an \<^verbatim>\<open>int\<close> count and \<^verbatim>\<open>weights[i] = v\<close>.\<close>

definition assign :: "int \<Rightarrow> real \<Rightarrow> error + real list" where
  "assign n v = (if n < 0 then Inl LengthError else Inr (replicate (nat n) v))"

definition set_at :: "real list \<Rightarrow> nat \<Rightarrow> real \<Rightarrow> error + real list" where
  "set_at ws i v = (if i < length ws then Inr (ws[i := v]) else Inl OutOfBounds)"

text \<open>\<^verbatim>\<open>s.find(pat) != std::string::npos\<close>: \<^verbatim>\<open>pat\<close> occurs somewhere in \<^verbatim>\<open>s\<close>.\<close>

fun str_contains :: "string \<Rightarrow> string \<Rightarrow> bool" where
  "str_contains [] pat = (pat = [])"
| "str_contains (c # cs) pat = (take (length pat) (c # cs) = pat \<or> str_contains cs pat)"

definition substr :: "string \<Rightarrow> nat \<Rightarrow> error + string" where
  "substr s pos = (if pos \<le> length s then Inr (drop pos s) else Inl OutOfRange)"

text \<open>
  \<^verbatim>\<open>std::stoi\<close> in base 10: leading white space is skipped, one optional sign is read,
  then the longest run of decimal digits; no digit is \<^verbatim>\<open>invalid_argument\<close>, a value
  that does not fit a 32-bit \<^verbatim>\<open>int\<close> is \<^verbatim>\<open>out_of_range\<close>.
\<close>

definition is_space :: "char \<Rightarrow> bool" where
  "is_space c \<longleftrightarrow> c \<in> set [CHR '' '', CHR 0x09, CHR 0x0A, CHR 0x0B, CHR 0x0C, CHR 0x0D]"

definition is_digit :: "char \<Rightarrow> bool" where
  "is_digit c \<longleftrightarrow> (48::nat) \<le> of_char c \<and> (of_char c :: nat) \<le> 57"

definition digit_val :: "char \<Rightarrow> int" where
  "digit_val c = (of_char c :: int) - 48"

definition digits_val :: "string \<Rightarrow> int" where
  "digits_val ds = foldl (\<lambda>acc c. 10 * acc + digit_val c) 0 ds"

definition stoi :: "string \<Rightarrow> error + int" where
  "stoi s =
    (let t = dropWhile is_space s;
         (neg, u) = (case t of
                       c # r \<Rightarrow> if c = CHR ''-'' then (True, r)
                                else if c = CHR ''+'' then (False, r) else (False, t)
                     | [] \<Rightarrow> (False, t));
         ds = takeWhile is_digit u;
         v = (if neg then - digits_val ds else digits_val ds)
     in if ds = [] then Inl InvalidArgument
        else if v < - 2147483648 \<or> 2147483647 < v then Inl OutOfRange
        else Inr v)"

text \<open>
  A member name of the source that ends in an underscore ends in a prime here:
  \<^verbatim>\<open>time_steps_\<close> is \<open>time_steps'\<close>.
\<close>

record TransientObjective =
  time_steps' :: int
  dt' :: real
  transient_integral_type' :: string

text \<open>The body of the Simpson loop, for one index \<^verbatim>\<open>i\<close>.\<close>

definition simpson_step :: "real \<Rightarrow> error + real list \<Rightarrow> nat \<Rightarrow> error + real list" where
  "simpson_step d acc i =
     (case acc of Inl e \<Rightarrow> Inl e
      | Inr ws \<Rightarrow> if i mod 2 \<noteq> 0 then set_at ws i (d * 4 / 3) else set_at ws i (d * 2 / 4))"

definition get_transient_quadrature_weights :: "TransientObjective \<Rightarrow> error + real list" where
  "get_transient_quadrature_weights t =
    (case assign (time_steps' t + 1) (dt' t) of Inl e \<Rightarrow> Inl e
     | Inr weights \<Rightarrow>
        if transient_integral_type' t = ''uniform'' then set_at weights 0 0
        else if transient_integral_type' t = ''trapezoidal'' then
          (case set_at weights 0 (dt' t / 2) of Inl e \<Rightarrow> Inl e
           | Inr w1 \<Rightarrow> set_at w1 (length w1 - 1) (dt' t / 2))
        else if transient_integral_type' t = ''simpson'' then
          (case set_at weights 0 (dt' t / 3) of Inl e \<Rightarrow> Inl e
           | Inr w1 \<Rightarrow>
              (case set_at w1 (length w1 - 1) (dt' t / 3) of Inl e \<Rightarrow> Inl e
               | Inr w2 \<Rightarrow> foldl (simpson_step (dt' t)) (Inr w2) [1..<length w2 - 1]))
        else if transient_integral_type' t = ''final'' then
          (case assign (time_steps' t + 1) 0 of Inl e \<Rightarrow> Inl e
           | Inr w0 \<Rightarrow> if time_steps' t < 0 then Inl OutOfBounds
                       else set_at w0 (nat (time_steps' t)) 1)
        else if str_contains (transient_integral_type' t) ''step_'' then
          (case assign (time_steps' t + 1) 0 of Inl e \<Rightarrow> Inl e
           | Inr w0 \<Rightarrow>
              (case substr (transient_integral_type' t) 5 of Inl e \<Rightarrow> Inl e
               | Inr digits \<Rightarrow>
                  (case stoi digits of Inl e \<Rightarrow> Inl e
                   | Inr k \<Rightarrow>
                      if k > 0 \<and> k < int (length w0) then set_at w0 (nat k) 1
                      else Inl AssertFailed)))
        else Inl AssertFailed)"

section \<open>The simulation state\<close>

text \<open>
  What the objectives read of a simulation \<^verbatim>\<open>State\<close>. Quadrature and assembly values,
  the geometric mapping of an element, the interpolation of a solution at local points
  and the Lame parameters belong to the mesh, basis and assembler code, outside these
  sources; they are fields of the record. A batch of points is the list of its rows,
  one row per quadrature point.
\<close>

type_synonym points = "vectorXd list"

text \<open>\<^verbatim>\<open>Local2Global\<close>: a global node index and its weight.\<close>

record Local2Global =
  g_index :: nat
  g_val :: real

text \<open>\<^verbatim>\<open>AssemblyValues\<close> of one local basis function: \<^verbatim>\<open>global\<close> and the rows of \<^verbatim>\<open>grad_t_m\<close>.\<close>

record AssemblyValues =
  v_global :: "Local2Global list"
  v_grad_t_m :: points

text \<open>\<^verbatim>\<open>ElementAssemblyValues\<close> with its \<^verbatim>\<open>quadrature\<close>.\<close>

record ElementAssemblyValues =
  quadrature_weights :: vectorXd
  quadrature_points :: points
  vals_val :: points
  vals_det :: vectorXd
  basis_values :: "AssemblyValues list"

record State =
  ndof :: nat
  n_bases :: nat                                  \<comment> \<open>\<^verbatim>\<open>bases.size()\<close>\<close>
  get_body_id :: "nat \<Rightarrow> int"                     \<comment> \<open>\<^verbatim>\<open>mesh->get_body_id(e)\<close>\<close>
  dimension :: nat                                \<comment> \<open>\<^verbatim>\<open>mesh->dimension()\<close>\<close>
  formulation :: string
  is_time_dependent :: bool                       \<comment> \<open>\<^verbatim>\<open>problem->is_time_dependent()\<close>\<close>
  diff_cached :: "vectorXd list"                  \<comment> \<open>\<^verbatim>\<open>diff_cached[t].u\<close>\<close>
  eval_geom_mapping :: "nat \<Rightarrow> points \<Rightarrow> points"  \<comment> \<open>\<^verbatim>\<open>geom_bases()[e].eval_geom_mapping\<close>\<close>
  interpolate_at_local_vals :: "nat \<Rightarrow> points \<Rightarrow> vectorXd \<Rightarrow> points"
  ass_vals_cache_compute :: "nat \<Rightarrow> ElementAssemblyValues"
  density_mat :: vectorXd                         \<comment> \<open>\<^verbatim>\<open>lame_params().density_mat_\<close>\<close>
  density_power :: real                           \<comment> \<open>\<^verbatim>\<open>lame_params().density_power_\<close>\<close>
  lambda_mu :: "vectorXd \<Rightarrow> vectorXd \<Rightarrow> nat \<Rightarrow> real \<times> real"

section \<open>The objective interface\<close>

text \<open>
  A \<^verbatim>\<open>Parameter\<close> is told apart by the address of the object
  (\<^verbatim>\<open>&param == shape_param_.get()\<close>); \<open>full_dim\<close> is the size of its vector.
\<close>

record Parameter =
  address :: nat
  full_dim :: nat

text \<open>
  The abstract class \<^verbatim>\<open>Objective\<close> as the record of its three virtual methods. The
  leaves integrate over the mesh through \<^verbatim>\<open>AdjointForm\<close>, which is outside these
  sources, so a sub-objective is given by what its methods return.
\<close>

record Objective =
  obj_value :: real
  obj_compute_adjoint_rhs :: "State \<Rightarrow> matrixXd"
  obj_compute_partial_gradient :: "Parameter \<Rightarrow> vectorXd"

section \<open>StaticObjective and SpatialIntegralObjective\<close>

text \<open>
  The class hierarchy as record extension. A \<^verbatim>\<open>shared_ptr\<close> to a parameter is the address
  of the parameter, \<open>None\<close> when the pointer is empty.
\<close>

record StaticObjective =
  time_step' :: nat

record SpatialIntegralObjective = StaticObjective +
  state' :: State
  shape_param' :: "nat option"
  interested_ids' :: "int set"

text \<open>
  \<^verbatim>\<open>SpatialIntegralObjective::compute_partial_gradient\<close>. The shape derivative of the
  integral is assembled by \<^verbatim>\<open>AdjointForm::compute_shape_derivative_functional_term\<close>,
  outside these sources: it is the argument \<open>shape_term\<close>, from the state, the time step
  and the zero vector to the filled vector.
\<close>

definition SpatialIntegralObjective_compute_partial_gradient ::
  "(State \<Rightarrow> nat \<Rightarrow> vectorXd \<Rightarrow> vectorXd) \<Rightarrow> 'a SpatialIntegralObjective_scheme \<Rightarrow> Parameter
     \<Rightarrow> error + vectorXd" where
  "SpatialIntegralObjective_compute_partial_gradient shape_term S param =
     (let term = vec_zero (full_dim param) in
      if Some (address param) = shape_param' S then
        (if time_step' S < length (diff_cached (state' S))
         then Inr (shape_term (state' S) (time_step' S) term)
         else Inl AssertFailed)
      else Inr term)"

section \<open>SumObjective\<close>

record SumObjective =
  objs :: "Objective list"

definition SumObjective_value :: "SumObjective \<Rightarrow> real" where
  "SumObjective_value S = foldl (\<lambda>val obj. val + obj_value obj) 0 (objs S)"

text \<open>\<^verbatim>\<open>grad += obj.compute_partial_gradient(param)\<close>, stopping at the first failed size check.\<close>

definition SumObjective_compute_partial_gradient ::
  "SumObjective \<Rightarrow> Parameter \<Rightarrow> error + vectorXd" where
  "SumObjective_compute_partial_gradient S param =
     foldl (\<lambda>grad obj. case grad of Inl e \<Rightarrow> Inl e
                         | Inr g \<Rightarrow> vec_add g (obj_compute_partial_gradient obj param))
           (Inr (vec_zero (full_dim param))) (objs S)"

text \<open>
  \<^verbatim>\<open>rhs += m\<close> with \<^verbatim>\<open>rhs\<close> an \<^verbatim>\<open>Eigen::VectorXd\<close> and \<^verbatim>\<open>m\<close> an \<^verbatim>\<open>Eigen::MatrixXd\<close>: a
  compound assignment never resizes its left side, so Eigen asserts that \<^verbatim>\<open>m\<close> has
  the rows of \<^verbatim>\<open>rhs\<close> and one column.
\<close>

definition vec_add_matrix :: "vectorXd \<Rightarrow> matrixXd \<Rightarrow> error + vectorXd" where
  "vec_add_matrix rhs m =
     (if rows m = length rhs \<and> cols m = 1 then Inr (map2 (+) rhs (coeffs m))
      else Inl AssertFailed)"

definition matrix_of_vector :: "vectorXd \<Rightarrow> matrixXd" where
  "matrix_of_vector v = \<lparr>rows = length v, cols = 1, coeffs = v\<rparr>"

definition SumObjective_compute_adjoint_rhs :: "SumObjective \<Rightarrow> State \<Rightarrow> error + matrixXd" where
  "SumObjective_compute_adjoint_rhs S state =
     map_sum id matrix_of_vector
       (foldl (\<lambda>rhs obj. case rhs of Inl e \<Rightarrow> Inl e
                          | Inr r \<Rightarrow> vec_add_matrix r (obj_compute_adjoint_rhs obj state))
              (Inr (vec_zero (ndof state))) (objs S))"

text \<open>
  The elementwise sum of matrices of one shape \<open>r \<times> c\<close>, the right-hand side that the
  common contract (one column per time step) asks of a sum of objectives.
\<close>

definition matrix_sum :: "nat \<Rightarrow> nat \<Rightarrow> matrixXd list \<Rightarrow> matrixXd" where
  "matrix_sum r c ms =
     \<lparr>rows = r, cols = c,
      coeffs = map (\<lambda>k. sum_list (map (\<lambda>m. coeffs m ! k) ms)) [0..<r * c]\<rparr>"

definition vec_sum :: "nat \<Rightarrow> vectorXd list \<Rightarrow> vectorXd" where
  "vec_sum n vs = map (\<lambda>k. sum_list (map (\<lambda>v. v ! k) vs)) [0..<n]"

section \<open>VolumePaneltyObjective\<close>

text \<open>\<open>bound\<close> is the pair \<^verbatim>\<open>(bound[0], bound[1])\<close>; \<open>obj\<close> is the wrapped \<^verbatim>\<open>VolumeObjective\<close>.\<close>

record VolumePaneltyObjective =
  bound :: "real \<times> real"
  obj :: Objective

definition VolumePaneltyObjective_value :: "VolumePaneltyObjective \<Rightarrow> real" where
  "VolumePaneltyObjective_value P =
     (let vol = obj_value (obj P) in
      if vol < fst (bound P) then (vol - fst (bound P))\<^sup>2
      else if vol > snd (bound P) then (vol - snd (bound P))\<^sup>2
      else 0)"

definition VolumePaneltyObjective_compute_partial_gradient ::
  "VolumePaneltyObjective \<Rightarrow> Parameter \<Rightarrow> vectorXd" where
  "VolumePaneltyObjective_compute_partial_gradient P param =
     (let vol = obj_value (obj P);
          grad = obj_compute_partial_gradient (obj P) param in
      if vol < fst (bound P) then vec_scale (2 * (vol - fst (bound P))) grad
      else if vol > snd (bound P) then vec_scale (2 * (vol - snd (bound P))) grad
      else vec_zero (length grad))"

text \<open>The same objective with the wrapped volume at \<open>v\<close>, to vary the volume alone.\<close>

definition at_volume :: "VolumePaneltyObjective \<Rightarrow> real \<Rightarrow> VolumePaneltyObjective" where
  "at_volume P v = P\<lparr>obj := (obj P)\<lparr>obj_value := v\<rparr>\<rparr>"

section \<open>BarycenterTargetObjective\<close>

text \<open>
  \<open>objv\<close> is the \<^verbatim>\<open>VolumeObjective\<close>, \<open>objp\<close> the \<^verbatim>\<open>PositionObjective\<close> of each
  axis, \<open>target'\<close> the matrix of target points (one row, or one row per time step).
\<close>

record BarycenterTargetObjective = StaticObjective +
  dim' :: nat
  target' :: matrixXd
  objv :: Objective
  objp :: "Objective list"

text \<open>
  An \<^verbatim>\<open>Eigen::VectorXd\<close> built from an \<^verbatim>\<open>Eigen::MatrixXd\<close>. The constructor asserts one
  row or one column; the assignment that follows transposes only a source whose shape
  is a row at compile time, so for a \<^verbatim>\<open>MatrixXd\<close> it resizes the vector to the rows and
  columns of the source and asserts that there is one column. A matrix of one column
  gives its coefficients; a run-time row of two or more entries fails.
\<close>

definition vector_of_matrix :: "matrixXd \<Rightarrow> error + vectorXd" where
  "vector_of_matrix m =
     (if \<not> (rows m = 1 \<or> cols m = 1) then Inl AssertFailed
      else if cols m \<noteq> 1 then Inl AssertFailed
      else Inr (coeffs m))"

text \<open>
  \<^verbatim>\<open>target_.row(i)\<close> is a row at compile time and is transposed into the vector; the
  index is asserted to be a row of the matrix.
\<close>

definition get_target :: "BarycenterTargetObjective \<Rightarrow> error + vectorXd" where
  "get_target B =
     (if cols (target' B) \<noteq> dim' B then Inl AssertFailed
      else if rows (target' B) > 1 then
        (if time_step' B < rows (target' B) then Inr (matrix_row (target' B) (time_step' B))
         else Inl AssertFailed)
      else vector_of_matrix (target' B))"

text \<open>
  \<^verbatim>\<open>center(d) = objp[d]->value() / volume\<close> for \<^verbatim>\<open>d < dim_\<close>. A zero volume makes every
  quotient infinite or NaN.
\<close>

definition get_barycenter :: "BarycenterTargetObjective \<Rightarrow> error + vectorXd" where
  "get_barycenter B =
     (let volume = obj_value (objv B) in
      if length (objp B) < dim' B then Inl OutOfBounds
      else if dim' B > 0 \<and> volume = 0 then Inl NonFinite
      else Inr (map (\<lambda>d. obj_value (objp B ! d) / volume) [0..<dim' B]))"

definition BarycenterTargetObjective_value :: "BarycenterTargetObjective \<Rightarrow> error + real" where
  "BarycenterTargetObjective_value B =
     (case get_barycenter B of Inl e \<Rightarrow> Inl e
      | Inr center \<Rightarrow>
         (case get_target B of Inl e \<Rightarrow> Inl e
          | Inr tgt \<Rightarrow> map_sum id squaredNorm (vec_sub center tgt)))"

section \<open>TargetObjective: the reference simulation and the element map\<close>

text \<open>The \<^verbatim>\<open>json\<close> parameters of an integrand call: the element and the time step.\<close>

record params =
  params_elem :: nat
  params_step :: nat

text \<open>
  \<open>target_state'\<close> is the \<^verbatim>\<open>shared_ptr\<close> to the reference simulation
  (\<open>None\<close> when empty), \<open>e_to_ref_e'\<close> the \<^verbatim>\<open>std::map<int, int>\<close> of corresponding elements.
\<close>

record TargetObjective = SpatialIntegralObjective +
  target_state' :: "State option"
  e_to_ref_e' :: "nat \<rightharpoonup> nat"

text \<open>Sequencing of steps that may fail: the first error ends the computation.\<close>

definition and_then :: "error + 'a \<Rightarrow> ('a \<Rightarrow> error + 'b) \<Rightarrow> error + 'b" where
  "and_then r f = (case r of Inl e \<Rightarrow> Inl e | Inr v \<Rightarrow> f v)"

definition nth_checked :: "'a list \<Rightarrow> nat \<Rightarrow> error + 'a" where
  "nth_checked xs i = (if i < length xs then Inr (xs ! i) else Inl OutOfBounds)"

text \<open>Row \<^verbatim>\<open>q\<close> of the value integrand and of its derivative.\<close>

definition j_row :: "points \<Rightarrow> points \<Rightarrow> points \<Rightarrow> points \<Rightarrow> nat \<Rightarrow> error + real" where
  "j_row u_ref pts_ref u pts q =
     and_then (nth_checked u_ref q) (\<lambda>ur. and_then (nth_checked pts_ref q) (\<lambda>pr.
     and_then (nth_checked u q) (\<lambda>uq. and_then (nth_checked pts q) (\<lambda>pq.
     and_then (vec_add ur pr) (\<lambda>a. and_then (vec_add uq pq) (\<lambda>b.
     and_then (vec_sub a b) (\<lambda>d. Inr (squaredNorm d))))))))"

definition djdu_row :: "points \<Rightarrow> points \<Rightarrow> points \<Rightarrow> points \<Rightarrow> nat \<Rightarrow> error + vectorXd" where
  "djdu_row u_ref pts_ref u pts q =
     and_then (nth_checked u_ref q) (\<lambda>ur. and_then (nth_checked pts_ref q) (\<lambda>pr.
     and_then (nth_checked u q) (\<lambda>uq. and_then (nth_checked pts q) (\<lambda>pq.
     and_then (vec_add uq pq) (\<lambda>a. and_then (vec_add ur pr) (\<lambda>b.
     and_then (vec_sub a b) (\<lambda>x. Inr (vec_scale 2 x))))))))"

text \<open>Runs the loop body over \<^verbatim>\<open>q = 0 .. n - 1\<close> and stops at the first failure.\<close>

fun for_rows :: "(nat \<Rightarrow> error + 'a) \<Rightarrow> nat list \<Rightarrow> error + 'a list" where
  "for_rows f [] = Inr []"
| "for_rows f (q # qs) =
     (case f q of Inl e \<Rightarrow> Inl e
      | Inr v \<Rightarrow> (case for_rows f qs of Inl e \<Rightarrow> Inl e | Inr vs \<Rightarrow> Inr (v # vs)))"

text \<open>
  The solution of the reference simulation that the integrand reads:
  \<^verbatim>\<open>diff_cached[params["step"]].u\<close> when the reference problem is time dependent,
  \<^verbatim>\<open>diff_cached[0].u\<close> otherwise.
\<close>

definition sol_ref :: "State \<Rightarrow> params \<Rightarrow> error + vectorXd" where
  "sol_ref ref prm =
     (if is_time_dependent ref then nth_checked (diff_cached ref) (params_step prm)
      else nth_checked (diff_cached ref) 0)"

definition j_func :: "TargetObjective \<Rightarrow> points \<Rightarrow> points \<Rightarrow> points \<Rightarrow> params \<Rightarrow> error + real list" where
  "j_func T local_pts pts u prm =
     (case target_state' T of None \<Rightarrow> Inl NullPointer
      | Some ref \<Rightarrow>
         (let e = params_elem prm;
              e_ref = (case e_to_ref_e' T e of Some found \<Rightarrow> found | None \<Rightarrow> e)
          in if e_ref \<ge> n_bases ref then Inl OutOfBounds
             else
               (let pts_ref = eval_geom_mapping ref e_ref local_pts in
                case sol_ref ref prm of Inl err \<Rightarrow> Inl err
                | Inr sol \<Rightarrow>
                   (let u_ref = interpolate_at_local_vals ref e_ref local_pts sol
                    in for_rows (j_row u_ref pts_ref u pts) [0..<length u]))))"

definition djdu_func ::
  "TargetObjective \<Rightarrow> points \<Rightarrow> points \<Rightarrow> points \<Rightarrow> params \<Rightarrow> error + points" where
  "djdu_func T local_pts pts u prm =
     (case target_state' T of None \<Rightarrow> Inl NullPointer
      | Some ref \<Rightarrow>
         (let e = params_elem prm;
              e_ref = (case e_to_ref_e' T e of Some found \<Rightarrow> found | None \<Rightarrow> e)
          in if e_ref \<ge> n_bases ref then Inl OutOfBounds
             else
               (let pts_ref = eval_geom_mapping ref e_ref local_pts in
                case sol_ref ref prm of Inl err \<Rightarrow> Inl err
                | Inr sol \<Rightarrow>
                   (let u_ref = interpolate_at_local_vals ref e_ref local_pts sol
                    in for_rows (djdu_row u_ref pts_ref u pts) [0..<length u]))))"

text \<open>
  \<^verbatim>\<open>IntegrableFunctional\<close>: the slots that \<^verbatim>\<open>TargetObjective\<close> fills. The derivative with
  respect to the position is the same closure as the one with respect to the field.
\<close>

record IntegrableFunctional =
  slot_j :: "points \<Rightarrow> points \<Rightarrow> points \<Rightarrow> params \<Rightarrow> error + real list"
  slot_dj_du :: "points \<Rightarrow> points \<Rightarrow> points \<Rightarrow> params \<Rightarrow> error + points"
  slot_dj_dx :: "points \<Rightarrow> points \<Rightarrow> points \<Rightarrow> params \<Rightarrow> error + points"

definition get_integral_functional :: "TargetObjective \<Rightarrow> error + IntegrableFunctional" where
  "get_integral_functional T =
     (case target_state' T of None \<Rightarrow> Inl AssertFailed
      | Some ref \<Rightarrow>
         if \<not> length (diff_cached ref) > 0 then Inl AssertFailed
         else Inr \<lparr>slot_j = j_func T, slot_dj_du = djdu_func T, slot_dj_dx = djdu_func T\<rparr>)"

section \<open>TargetObjective::set_reference\<close>

text \<open>
  A \<^verbatim>\<open>std::map<int, std::vector<int>>\<close> from body ids to element lists, as the list of
  its entries in key order (the order of iteration).
\<close>

type_synonym body_map = "(int \<times> nat list) list"

fun omap_update :: "int \<Rightarrow> nat list \<Rightarrow> body_map \<Rightarrow> body_map" where
  "omap_update k v [] = [(k, v)]"
| "omap_update k v ((k', v') # m) =
     (if k < k' then (k, v) # (k', v') # m
      else if k = k' then (k, v) # m
      else (k', v') # omap_update k v m)"

text \<open>
  One pass of the element loop of \<^verbatim>\<open>set_reference\<close> over the elements of a simulation:
  the elements of every selected body, and their count. An empty id set selects all.
\<close>

definition collect_step :: "State \<Rightarrow> int set \<Rightarrow> body_map \<times> int \<Rightarrow> nat \<Rightarrow> body_map \<times> int" where
  "collect_step st ids acc e =
     (let (m, cnt) = acc; body_id = get_body_id st e in
      if ids \<noteq> {} \<and> body_id \<notin> ids then (m, cnt)
      else (case map_of m body_id of
              Some es \<Rightarrow> (omap_update body_id (es @ [e]) m, cnt + 1)
            | None \<Rightarrow> (omap_update body_id [e] m, cnt + 1)))"

definition collect_elements :: "State \<Rightarrow> int set \<Rightarrow> body_map \<times> int" where
  "collect_elements st ids = foldl (collect_step st ids) ([], 0) [0..<n_bases st]"

text \<open>
  \<^verbatim>\<open>ref_interested_body_id_to_e[kv.first]\<close>: \<^verbatim>\<open>operator[]\<close> of the map gives an empty
  vector for a missing key; \<^verbatim>\<open>[i]\<close> past the end of the vector is an error.
\<close>

definition pair_elements ::
  "(nat \<rightharpoonup> nat) \<Rightarrow> nat list \<Rightarrow> nat list \<Rightarrow> error + (nat \<rightharpoonup> nat)" where
  "pair_elements m es ref_es =
     foldl (\<lambda>acc i. and_then acc (\<lambda>m'. and_then (nth_checked ref_es i)
                        (\<lambda>r. Inr (m'(es ! i \<mapsto> r)))))
           (Inr m) [0..<length es]"

definition pair_bodies :: "(nat \<rightharpoonup> nat) \<Rightarrow> body_map \<Rightarrow> body_map \<Rightarrow> error + (nat \<rightharpoonup> nat)" where
  "pair_bodies m interested ref_interested =
     foldl (\<lambda>acc kv. and_then acc (\<lambda>m'.
              pair_elements m' (snd kv)
                (case map_of ref_interested (fst kv) of Some es \<Rightarrow> es | None \<Rightarrow> [])))
           (Inr m) interested"

definition set_reference ::
  "TargetObjective \<Rightarrow> State option \<Rightarrow> int set \<Rightarrow> log_record list \<times> (error + TargetObjective)" where
  "set_reference T target_state reference_cached_body_ids =
     (case target_state of None \<Rightarrow> ([], Inl NullPointer)
      | Some ref \<Rightarrow>
         (let (ref_interested_body_id_to_e, ref_count) =
                collect_elements ref reference_cached_body_ids;
              (interested_body_id_to_e, count) =
                collect_elements (state' T) reference_cached_body_ids;
              log = (if count \<noteq> ref_count
                     then [(Error, ''Number of interested elements in the reference and optimization examples do not match!'', [])]
                     else [(Trace, ''Found {} matching elements.'', [count])])
          in (log,
              map_sum id (\<lambda>m. T\<lparr>target_state' := target_state, e_to_ref_e' := m\<rparr>)
                (pair_bodies (e_to_ref_e' T) interested_body_id_to_e
                   ref_interested_body_id_to_e))))"

section \<open>ComplianceObjective::compute_partial_gradient\<close>

record ComplianceObjective = SpatialIntegralObjective +
  formulation' :: string
  elastic_param' :: "nat option"
  topo_param' :: "nat option"

text \<open>
  \<^verbatim>\<open>pow(x, y)\<close> of the C library on finite arguments; a domain or pole error (a
  negative base with a fractional exponent, zero to a negative power) has no finite
  value.
\<close>

definition c_pow :: "real \<Rightarrow> real \<Rightarrow> error + real" where
  "c_pow x y =
     (if y = 0 then Inr 1
      else if x > 0 then Inr (x powr y)
      else if x = 0 then (if y > 0 then Inr 0 else Inl NonFinite)
      else if y = of_int \<lfloor>y\<rfloor>
           then Inr (if even \<lfloor>y\<rfloor> then \<bar>x\<bar> powr y else - (\<bar>x\<bar> powr y))
      else Inl NonFinite)"

text \<open>Square matrices of the spatial dimension, as the list of their rows.\<close>

definition stress_LinearElasticity :: "nat \<Rightarrow> real \<Rightarrow> real \<Rightarrow> points \<Rightarrow> points" where
  "stress_LinearElasticity n mu lambda grad_u_q =
     (let trace = sum_list (map (\<lambda>i. grad_u_q ! i ! i) [0..<n]) in
      map (\<lambda>i. map (\<lambda>l. mu * (grad_u_q ! i ! l + grad_u_q ! l ! i)
                          + lambda * trace * (if i = l then 1 else 0)) [0..<n]) [0..<n])"

text \<open>
  \<^verbatim>\<open>(stress.array() * grad_u_q.array()).sum()\<close>: Eigen asserts that both have the same
  shape.
\<close>

definition contraction :: "points \<Rightarrow> points \<Rightarrow> error + real" where
  "contraction a b =
     (if map length a = map length b
      then Inr (sum_list (map2 (\<lambda>ra rb. sum_list (map2 (*) ra rb)) a b))
      else Inl AssertFailed)"

text \<open>
  \<^verbatim>\<open>coeff\<close> of one basis function along axis \<^verbatim>\<open>d\<close>: the sum over \<^verbatim>\<open>v.global\<close> of
  \<^verbatim>\<open>u(g.index * dim + d) * g.val\<close>.
\<close>

definition basis_coeff :: "vectorXd \<Rightarrow> nat \<Rightarrow> nat \<Rightarrow> Local2Global list \<Rightarrow> error + real" where
  "basis_coeff u n d gs =
     foldl (\<lambda>acc g. and_then acc (\<lambda>c. and_then (nth_checked u (g_index g * n + d))
                        (\<lambda>ug. Inr (c + ug * g_val g))))
           (Inr 0) gs"

text \<open>\<^verbatim>\<open>grad_u_q.row(d) += v.grad_t_m.row(q) * coeff\<close> for one basis function and one axis.\<close>

definition add_basis_row :: "vectorXd \<Rightarrow> nat \<Rightarrow> nat \<Rightarrow> AssemblyValues \<Rightarrow> error + points \<Rightarrow> nat
    \<Rightarrow> error + points" where
  "add_basis_row u n q v acc d =
     and_then acc (\<lambda>grad_u_q.
     and_then (basis_coeff u n d (v_global v)) (\<lambda>c.
     and_then (nth_checked (v_grad_t_m v) q) (\<lambda>g_row.
     and_then (nth_checked grad_u_q d) (\<lambda>row.
     and_then (vec_add row (vec_scale c g_row)) (\<lambda>row'.
     Inr (grad_u_q[d := row']))))))"

definition compute_grad_u_q :: "vectorXd \<Rightarrow> nat \<Rightarrow> nat \<Rightarrow> AssemblyValues list \<Rightarrow> error + points" where
  "compute_grad_u_q u n q vs =
     foldl (\<lambda>acc v. foldl (add_basis_row u n q v) acc [0..<n])
           (Inr (replicate n (replicate n 0))) vs"

text \<open>
  The body of the quadrature loop for element \<^verbatim>\<open>e\<close> and point \<^verbatim>\<open>q\<close>: the value added
  to \<^verbatim>\<open>term(e)\<close>, then the update \<^verbatim>\<open>term(e) += ...\<close>. For another formulation than
  linear elasticity the source logs an error and goes on with an empty \<^verbatim>\<open>stress\<close>.
\<close>

definition topology_contribution :: "State \<Rightarrow> nat \<Rightarrow> nat \<Rightarrow> ElementAssemblyValues \<Rightarrow> nat
    \<Rightarrow> error + real" where
  "topology_contribution st ts e vals q =
     and_then (nth_checked (quadrature_points vals) q) (\<lambda>pt.
     and_then (nth_checked (vals_val vals) q) (\<lambda>vl.
     (let (lambda, mu) = lambda_mu st pt vl e in
      and_then (nth_checked (diff_cached st) ts) (\<lambda>u.
      and_then (compute_grad_u_q u (dimension st) q (basis_values vals)) (\<lambda>grad_u_q.
      (let stress = (if formulation st = ''LinearElasticity''
                     then stress_LinearElasticity (dimension st) mu lambda grad_u_q
                     else [])
       in and_then (nth_checked (density_mat st) e) (\<lambda>density.
          and_then (c_pow density (density_power st - 1)) (\<lambda>pw.
          and_then (contraction stress grad_u_q) (\<lambda>sg.
          and_then (nth_checked (quadrature_weights vals) q) (\<lambda>w.
          and_then (nth_checked (vals_det vals) q) (\<lambda>dt.
          Inr (density_power st * pw * sg * w * dt))))))))))))"

definition topology_point :: "State \<Rightarrow> nat \<Rightarrow> nat \<Rightarrow> ElementAssemblyValues \<Rightarrow> error + vectorXd \<Rightarrow> nat
    \<Rightarrow> error + vectorXd" where
  "topology_point st ts e vals acc q =
     and_then acc (\<lambda>term.
     and_then (topology_contribution st ts e vals q) (\<lambda>c.
     and_then (nth_checked term e) (\<lambda>term_e.
     Inr (term[e := term_e + c]))))"

definition topology_element :: "State \<Rightarrow> nat \<Rightarrow> error + vectorXd \<Rightarrow> nat \<Rightarrow> error + vectorXd" where
  "topology_element st ts acc e =
     (let vals = ass_vals_cache_compute st e in
      foldl (topology_point st ts e vals) acc [0..<length (quadrature_weights vals)])"

definition topology_term :: "State \<Rightarrow> nat \<Rightarrow> vectorXd \<Rightarrow> error + vectorXd" where
  "topology_term st ts term = foldl (topology_element st ts) (Inr term) [0..<n_bases st]"

text \<open>
  The method itself. In the branch of the shape parameter the source writes
  \<^verbatim>\<open>term = compute_partial_gradient(param);\<close>, a call of this same method with the same
  argument. The result is \<open>None\<close> when the call does not return.
\<close>

partial_function (option) ComplianceObjective_compute_partial_gradient ::
  "ComplianceObjective \<Rightarrow> Parameter \<Rightarrow> (error + vectorXd) option" where
  "ComplianceObjective_compute_partial_gradient C param =
     (let term = vec_zero (full_dim param) in
      if Some (address param) = elastic_param' C then Some (Inl (RuntimeError ''Not implemented!''))
      else if Some (address param) = shape_param' C then
        Option.bind (ComplianceObjective_compute_partial_gradient C param) (\<lambda>term'. Some term')
      else if Some (address param) = topo_param' C then
        Some (topology_term (state' C) (time_step' C) term)
      else Some (Inr term))"

section \<open>ALSolver\<close>

text \<open>
  A \<^verbatim>\<open>double\<close> that may be tested with \<^verbatim>\<open>std::isfinite\<close> or compared while not finite.
\<close>

datatype fp = Finite real | PosInf | NegInf | NaN

fun isfinite :: "fp \<Rightarrow> bool" where
  "isfinite (Finite x) = True"
| "isfinite PosInf = False"
| "isfinite NegInf = False"
| "isfinite NaN = False"

text \<open>\<^verbatim>\<open>a < b\<close> for a \<^verbatim>\<open>double\<close> \<open>a\<close> and a finite \<open>b\<close>: every comparison with NaN is false.\<close>

fun fp_less :: "fp \<Rightarrow> real \<Rightarrow> bool" where
  "fp_less (Finite a) b = (a < b)"
| "fp_less NegInf b = True"
| "fp_less PosInf b = False"
| "fp_less NaN b = False"

text \<open>
  \<^verbatim>\<open>1 - sqrt(current_error / initial_error)\<close> on finite errors: a zero initial error
  makes the quotient infinite or NaN, a negative quotient makes the root NaN.
\<close>

definition eta_of :: "real \<Rightarrow> real \<Rightarrow> fp" where
  "eta_of current_error initial_error =
     (if initial_error = 0 then (if current_error > 0 then NegInf else NaN)
      else if current_error / initial_error < 0 then NaN
      else Finite (1 - sqrt (current_error / initial_error)))"

record ALSolver =
  has_lagr_form :: bool      \<comment> \<open>\<^verbatim>\<open>lagr_form != nullptr\<close>\<close>
  has_pen_form :: bool       \<comment> \<open>\<^verbatim>\<open>pen_form != nullptr\<close>\<close>
  initial_al_weight :: real
  scaling :: real
  max_al_weight :: real
  eta_tol :: real

text \<open>
  The collaborators of the solver: the \<^verbatim>\<open>NLProblem\<close>, the \<^verbatim>\<open>NLSolver\<close>, the penalty and
  the Lagrangian form, the barrier-stiffness callback and the \<^verbatim>\<open>post_subsolve\<close> hook.
  Their code is outside these sources; they act on a shared state \<open>'e\<close>. The minimizer
  returns the new state, the vector it leaves in its argument, and the message of the
  \<^verbatim>\<open>std::runtime_error\<close> it throws, if it throws.
\<close>

record 'e collaborators =
  full_size :: "'e \<Rightarrow> nat"
  reduced_size :: "'e \<Rightarrow> nat"
  full_to_reduced :: "'e \<Rightarrow> vectorXd \<Rightarrow> vectorXd"
  reduced_to_full :: "'e \<Rightarrow> vectorXd \<Rightarrow> vectorXd"
  problem_value :: "'e \<Rightarrow> vectorXd \<Rightarrow> fp"
  is_step_valid :: "'e \<Rightarrow> vectorXd \<Rightarrow> vectorXd \<Rightarrow> bool"
  is_step_collision_free :: "'e \<Rightarrow> vectorXd \<Rightarrow> vectorXd \<Rightarrow> bool"
  line_search_begin :: "'e \<Rightarrow> vectorXd \<Rightarrow> vectorXd \<Rightarrow> 'e"
  line_search_end :: "'e \<Rightarrow> 'e"
  problem_init :: "'e \<Rightarrow> vectorXd \<Rightarrow> 'e"
  use_full_size :: "'e \<Rightarrow> 'e"
  use_reduced_size :: "'e \<Rightarrow> 'e"
  set_apply_DBC :: "'e \<Rightarrow> vectorXd \<Rightarrow> bool \<Rightarrow> 'e"
  minimize :: "'e \<Rightarrow> vectorXd \<Rightarrow> 'e \<times> vectorXd \<times> string option"
  iterations :: "'e \<Rightarrow> int"
  set_iterations :: "'e \<Rightarrow> int \<Rightarrow> 'e"
  pen_enable :: "'e \<Rightarrow> 'e"
  pen_disable :: "'e \<Rightarrow> 'e"
  pen_set_weight :: "'e \<Rightarrow> real \<Rightarrow> 'e"
  pen_compute_error :: "'e \<Rightarrow> vectorXd \<Rightarrow> real"
  lagr_enable :: "'e \<Rightarrow> 'e"
  lagr_disable :: "'e \<Rightarrow> 'e"
  update_lagrangian :: "'e \<Rightarrow> vectorXd \<Rightarrow> real \<Rightarrow> 'e"
  update_barrier_stiffness :: "'e \<Rightarrow> vectorXd \<Rightarrow> 'e"
  post_subsolve :: "'e \<Rightarrow> real \<Rightarrow> 'e"

text \<open>The calls that change the shared state, in the order they are made.\<close>

datatype event =
    LineSearchBegin | LineSearchEnd | ProblemInit | UseFullSize | UseReducedSize
  | SetApplyDBC bool | Minimize | SetIterations int
  | PenEnable | PenDisable | PenSetWeight real
  | LagrEnable | LagrDisable | UpdateLagrangian real
  | UpdateBarrierStiffness | PostSubsolve real

record 'e world =
  env :: 'e
  calls :: "event list"

definition call :: "event \<Rightarrow> ('e \<Rightarrow> 'e) \<Rightarrow> 'e world \<Rightarrow> 'e world" where
  "call ev f w = \<lparr>env = f (env w), calls = calls w @ [ev]\<rparr>"

definition set_al_weight :: "ALSolver \<Rightarrow> 'e collaborators \<Rightarrow> 'e world \<Rightarrow> vectorXd \<Rightarrow> real \<Rightarrow> 'e world" where
  "set_al_weight A c w x weight =
     (if \<not> has_pen_form A \<or> \<not> has_lagr_form A then w
      else if weight > 0 then
        call (SetApplyDBC False) (\<lambda>e. set_apply_DBC c e x False)
          (call UseFullSize (use_full_size c)
            (call (PenSetWeight weight) (\<lambda>e. pen_set_weight c e weight)
              (call LagrEnable (lagr_enable c)
                (call PenEnable (pen_enable c) w))))
      else
        call (SetApplyDBC True) (\<lambda>e. set_apply_DBC c e x True)
          (call UseReducedSize (use_reduced_size c)
            (call LagrDisable (lagr_disable c)
              (call PenDisable (pen_disable c) w))))"

text \<open>The local variables of \<^verbatim>\<open>solve_al\<close> that change in the loop, and the shared state.\<close>

record 'e al_state =
  world :: "'e world"
  sol :: vectorXd
  tmp_sol :: vectorXd
  al_weight :: real
  al_steps :: int

text \<open>The condition of the \<^verbatim>\<open>while\<close> loop, also tested by \<^verbatim>\<open>solve_reduced\<close>.\<close>

definition infeasible :: "'e collaborators \<Rightarrow> 'e \<Rightarrow> vectorXd \<Rightarrow> vectorXd \<Rightarrow> bool" where
  "infeasible c e x tmp \<longleftrightarrow>
     \<not> isfinite (problem_value c e tmp)
     \<or> \<not> is_step_valid c e x tmp
     \<or> \<not> is_step_collision_free c e x tmp"

definition al_guard :: "'e collaborators \<Rightarrow> 'e al_state \<Rightarrow> bool" where
  "al_guard c S = infeasible c (env (world S)) (sol S) (tmp_sol S)"

text \<open>
  One iteration of the loop. A \<^verbatim>\<open>std::runtime_error\<close> of the minimizer is caught and
  dropped. \<open>initial_sol\<close> and \<open>initial_error\<close> are the constants set before the loop.
\<close>

definition al_body ::
  "ALSolver \<Rightarrow> 'e collaborators \<Rightarrow> vectorXd \<Rightarrow> real \<Rightarrow> 'e al_state \<Rightarrow> error + 'e al_state" where
  "al_body A c initial_sol initial_error S =
     (let w1 = call LineSearchEnd (line_search_end c) (world S);
          w2 = set_al_weight A c w1 (sol S) (al_weight S);
          w3 = call ProblemInit (\<lambda>e. problem_init c e (sol S)) w2;
          w4 = call UpdateBarrierStiffness (\<lambda>e. update_barrier_stiffness c e (sol S)) w3;
          (e5, minimized, thrown) = minimize c (env w4) (sol S);
          w5 = \<lparr>env = e5, calls = calls w4 @ [Minimize]\<rparr>;
          w6 = set_al_weight A c w5 minimized (- 1)
      in if \<not> has_pen_form A then Inl NullPointer
         else
           (let current_error = pen_compute_error c (env w6) minimized;
                eta = eta_of current_error initial_error;
                sol' = (if fp_less eta 0 then initial_sol else minimized);
                tmp' = full_to_reduced c (env w6) sol';
                w7 = call LineSearchBegin (\<lambda>e. line_search_begin c e sol' tmp') w6
            in if fp_less eta (eta_tol A) \<and> al_weight S < max_al_weight A then
                 (let weight' = al_weight S * scaling A in
                  Inr \<lparr>world = call (PostSubsolve weight') (\<lambda>e. post_subsolve c e weight') w7,
                       sol = sol', tmp_sol = tmp', al_weight = weight',
                       al_steps = al_steps S + 1\<rparr>)
               else if \<not> has_lagr_form A then Inl NullPointer
               else
                 (let w8 = call (UpdateLagrangian (al_weight S))
                             (\<lambda>e. update_lagrangian c e sol' (al_weight S)) w7
                  in Inr \<lparr>world = call (PostSubsolve (al_weight S))
                                     (\<lambda>e. post_subsolve c e (al_weight S)) w8,
                          sol = sol', tmp_sol = tmp', al_weight = al_weight S,
                          al_steps = al_steps S + 1\<rparr>)))"

text \<open>The loop: \<open>None\<close> when it runs forever.\<close>

partial_function (option) al_loop ::
  "ALSolver \<Rightarrow> 'e collaborators \<Rightarrow> vectorXd \<Rightarrow> real \<Rightarrow> 'e al_state \<Rightarrow> (error + 'e al_state) option" where
  "al_loop A c initial_sol initial_error S =
     (if al_guard c S then
        (case al_body A c initial_sol initial_error S of
           Inl err \<Rightarrow> Some (Inl err)
         | Inr S' \<Rightarrow> al_loop A c initial_sol initial_error S')
      else Some (Inr S))"

text \<open>The state in which the loop is entered.\<close>

definition al_initial_state :: "ALSolver \<Rightarrow> 'e collaborators \<Rightarrow> 'e world \<Rightarrow> vectorXd \<Rightarrow> 'e al_state" where
  "al_initial_state A c w x =
     (let tmp = full_to_reduced c (env w) x in
      \<lparr>world = call LineSearchBegin (\<lambda>e. line_search_begin c e x tmp) w,
       sol = x, tmp_sol = tmp, al_weight = initial_al_weight A, al_steps = 0\<rparr>)"

definition solve_al ::
  "ALSolver \<Rightarrow> 'e collaborators \<Rightarrow> 'e world \<Rightarrow> vectorXd \<Rightarrow> (error + 'e world \<times> vectorXd) option" where
  "solve_al A c w x =
     (if length x \<noteq> full_size c (env w) then Some (Inl AssertFailed)
      else if length (full_to_reduced c (env w) x) \<noteq> reduced_size c (env w)
      then Some (Inl AssertFailed)
      else
        (let iters = iterations c (env w) in
         if \<not> has_pen_form A then Some (Inl NullPointer)
         else
           (let initial_error = pen_compute_error c (env w) x in
            case al_loop A c x initial_error (al_initial_state A c w x) of
              None \<Rightarrow> None
            | Some (Inl err) \<Rightarrow> Some (Inl err)
            | Some (Inr S) \<Rightarrow>
                Some (Inr (call (SetIterations iters) (\<lambda>e. set_iterations c e iters)
                             (call LineSearchEnd (line_search_end c) (world S)),
                           sol S)))))"

text \<open>
  \<^verbatim>\<open>solve_reduced\<close>: the exception that leaves the call (if any), the shared state and
  the solution as the call leaves them.
\<close>

definition solve_reduced ::
  "ALSolver \<Rightarrow> 'e collaborators \<Rightarrow> 'e world \<Rightarrow> vectorXd \<Rightarrow> error option \<times> 'e world \<times> vectorXd" where
  "solve_reduced A c w x =
     (if length x \<noteq> full_size c (env w) then (Some AssertFailed, w, x)
      else
        (let tmp = full_to_reduced c (env w) x;
             w1 = call LineSearchBegin (\<lambda>e. line_search_begin c e x tmp) w
         in if infeasible c (env w1) x tmp then
              (Some (RuntimeError ''Failed to apply boundary conditions; solve with augmented lagrangian first!''),
               w1, x)
            else
              (let w2 = call ProblemInit (\<lambda>e. problem_init c e x) w1;
                   w3 = call UpdateBarrierStiffness (\<lambda>e. update_barrier_stiffness c e x) w2;
                   (e4, minimized, thrown) = minimize c (env w3) tmp;
                   w4 = \<lparr>env = e4, calls = calls w3 @ [Minimize]\<rparr>;
                   x' = reduced_to_full c e4 minimized
               in case thrown of
                    Some msg \<Rightarrow> (Some (RuntimeError msg), w4, x')
                  | None \<Rightarrow> (None, call (PostSubsolve 0) (\<lambda>e. post_subsolve c e 0) w4, x'))))"

text \<open>The states of the loop that a run started in \<open>S0\<close> can be in at the loop test.\<close>

inductive al_reachable ::
  "ALSolver \<Rightarrow> 'e collaborators \<Rightarrow> vectorXd \<Rightarrow> real \<Rightarrow> 'e al_state \<Rightarrow> 'e al_state \<Rightarrow> bool"
  for A c initial_sol initial_error S0 where
    start: "al_reachable A c initial_sol initial_error S0 S0"
  | iteration:
      "al_reachable A c initial_sol initial_error S0 S \<Longrightarrow> al_guard c S \<Longrightarrow>
       al_body A c initial_sol initial_error S = Inr S' \<Longrightarrow>
       al_reachable A c initial_sol initial_error S0 S'"

code_pred al_reachable .

text \<open>The weights handed to \<^verbatim>\<open>post_subsolve\<close>, one per iteration of the loop.\<close>

fun post_subsolve_weights :: "event list \<Rightarrow> real list" where
  "post_subsolve_weights [] = []"
| "post_subsolve_weights (PostSubsolve w # evs) = w # post_subsolve_weights evs"
| "post_subsolve_weights (ev # evs) = post_subsolve_weights evs"

section \<open>Concrete instances\<close>

text \<open>
  A simulation with \<open>n\<close> elements, all of body \<open>1\<close>, one degree of freedom and the cached
  solutions \<open>[1]\<close> and \<open>[0]\<close>. The geometric mapping of element \<open>e\<close> shifts a point by
  \<open>e\<close>; the interpolated field is the solution's value at every point.
\<close>

definition small_state :: "nat \<Rightarrow> State" where
  "small_state n = \<lparr>ndof = 1, n_bases = n, get_body_id = (\<lambda>_. 1), dimension = 1,
      formulation = ''LinearElasticity'', is_time_dependent = True,
      diff_cached = [[1], [0]],
      eval_geom_mapping = (\<lambda>e pts. map (map (\<lambda>x. x + real e)) pts),
      interpolate_at_local_vals = (\<lambda>e pts sol. map (map (\<lambda>x. sum_list sol)) pts),
      ass_vals_cache_compute = (\<lambda>e. \<lparr>quadrature_weights = [1], quadrature_points = [[0]],
          vals_val = [[0]], vals_det = [1],
          basis_values = [\<lparr>v_global = [\<lparr>g_index = 0, g_val = 1\<rparr>], v_grad_t_m = [[1]]\<rparr>]\<rparr>),
      density_mat = replicate n 1, density_power = 3,
      lambda_mu = (\<lambda>p v e. (1, 1))\<rparr>"

text \<open>A volume objective of value \<open>1\<close> whose shape gradient is \<open>[1, 2]\<close>.\<close>

definition unit_volume :: "Objective" where
  "unit_volume = \<lparr>obj_value = 1, obj_compute_adjoint_rhs = (\<lambda>_. \<lparr>rows = 0, cols = 1, coeffs = []\<rparr>),
      obj_compute_partial_gradient = (\<lambda>_. [1, 2])\<rparr>"

text \<open>
  A sub-objective of a given value. A body of volume \<open>2\<close> whose position integrals are
  \<open>1\<close> and \<open>3\<close>, so that its centroid is \<open>(1/2, 3/2)\<close>: at time step \<open>1\<close> with the
  targets \<open>(0, 0)\<close> and \<open>(1, 2)\<close> of two time steps, and with the single target
  \<open>(1, 1)\<close>.
\<close>

definition pos_obj :: "real \<Rightarrow> Objective" where
  "pos_obj v = \<lparr>obj_value = v, obj_compute_adjoint_rhs = (\<lambda>_. \<lparr>rows = 0, cols = 1, coeffs = []\<rparr>),
      obj_compute_partial_gradient = (\<lambda>_. [])\<rparr>"

definition square_barycenter :: "BarycenterTargetObjective" where
  "square_barycenter = \<lparr>time_step' = 1, dim' = 2,
      target' = \<lparr>rows = 2, cols = 2, coeffs = [0, 1, 0, 2]\<rparr>, objv = pos_obj 2,
      objp = [pos_obj 1, pos_obj 3]\<rparr>"

definition single_target_square :: "BarycenterTargetObjective" where
  "single_target_square = \<lparr>time_step' = 0, dim' = 2,
      target' = \<lparr>rows = 1, cols = 2, coeffs = [1, 1]\<rparr>, objv = pos_obj 2,
      objp = [pos_obj 1, pos_obj 3]\<rparr>"

text \<open>A sub-objective on one degree of freedom and two time steps.\<close>

definition two_step_obj :: "Objective" where
  "two_step_obj = \<lparr>obj_value = 0,
      obj_compute_adjoint_rhs = (\<lambda>_. \<lparr>rows = 1, cols = 2, coeffs = [1, 2]\<rparr>),
      obj_compute_partial_gradient = (\<lambda>_. [])\<rparr>"

text \<open>
  A target objective on \<open>n\<close> elements before any call of \<^verbatim>\<open>set_reference\<close>, and one whose
  reference is set while the element map is still empty.
\<close>

definition fresh_target :: "nat \<Rightarrow> TargetObjective" where
  "fresh_target n = \<lparr>time_step' = 0, state' = small_state n, shape_param' = None,
      interested_ids' = {}, target_state' = None, e_to_ref_e' = Map.empty\<rparr>"

definition referenced_target :: TargetObjective where
  "referenced_target = \<lparr>time_step' = 0, state' = small_state 2, shape_param' = None,
      interested_ids' = {}, target_state' = Some (small_state 2), e_to_ref_e' = Map.empty\<rparr>"

text \<open>
  A plane simulation with two nodes and two elements of densities \<open>2\<close> and \<open>1\<close>, density
  exponent \<open>3\<close>, and the cached displacements \<open>[0, 0, 0, 0]\<close> at step \<open>0\<close> and
  \<open>[7, 9, 1, 2]\<close> at step \<open>1\<close>. Each element has two quadrature points, of weights \<open>1/2\<close>
  and \<open>2\<close>, with the Jacobian determinants \<open>3\<close> and \<open>1 + e\<close>; the Lame parameters there
  are \<open>lambda = 5 + e, mu = 1\<close> and \<open>lambda = 1 + e, mu = 2\<close>, read from the quadrature point
  and the mapped point. There are two basis functions: one of weight \<open>2\<close> on node \<open>1\<close>
  with the gradients \<open>(1, 3)\<close> and \<open>(0, 1)\<close>, one of weight \<open>1\<close> on both nodes with the
  gradients \<open>(0, 0)\<close> and \<open>(1, 0)\<close>. At step \<open>1\<close> the displacement gradient has the rows
  \<open>(2, 6)\<close>, \<open>(4, 12)\<close> at the first point and \<open>(8, 2)\<close>, \<open>(11, 4)\<close> at the second.
\<close>

definition plane_state :: State where
  "plane_state = \<lparr>ndof = 4, n_bases = 2, get_body_id = (\<lambda>_. 1), dimension = 2,
      formulation = ''LinearElasticity'', is_time_dependent = False,
      diff_cached = [[0, 0, 0, 0], [7, 9, 1, 2]],
      eval_geom_mapping = (\<lambda>e pts. pts),
      interpolate_at_local_vals = (\<lambda>e pts rsol. pts),
      ass_vals_cache_compute = (\<lambda>e. \<lparr>quadrature_weights = [1 / 2, 2],
          quadrature_points = [[5, 0], [1, 0]],
          vals_val = [[0, 1], [0, 2]], vals_det = [3, 1 + real e],
          basis_values =
            [\<lparr>v_global = [\<lparr>g_index = 1, g_val = 2\<rparr>], v_grad_t_m = [[1, 3], [0, 1]]\<rparr>,
             \<lparr>v_global = [\<lparr>g_index = 0, g_val = 1\<rparr>, \<lparr>g_index = 1, g_val = 1\<rparr>],
              v_grad_t_m = [[0, 0], [1, 0]]\<rparr>]\<rparr>),
      density_mat = [2, 1], density_power = 3,
      lambda_mu = (\<lambda>p v e. (p ! 0 + real e, v ! 1))\<rparr>"

text \<open>
  A compliance objective on it at time step \<open>1\<close> whose elastic, shape and topology
  parameters are the objects at the addresses \<open>1\<close>, \<open>2\<close> and \<open>3\<close>.
\<close>

definition small_compliance :: ComplianceObjective where
  "small_compliance = \<lparr>time_step' = 1, state' = plane_state, shape_param' = Some 2,
      interested_ids' = {}, formulation' = ''LinearElasticity'', elastic_param' = Some 1,
      topo_param' = Some 3\<rparr>"

text \<open>
  Collaborators on a counter of minimizer calls: a step is valid from the second call
  on, the error of the penalty form stays at \<open>1\<close>, nothing else changes the state.
\<close>

definition counting :: "nat collaborators" where
  "counting = \<lparr>full_size = (\<lambda>e. 1), reduced_size = (\<lambda>e. 1),
      full_to_reduced = (\<lambda>e x. x), reduced_to_full = (\<lambda>e x. x),
      problem_value = (\<lambda>e x. Finite 0),
      is_step_valid = (\<lambda>e x tmp. 2 \<le> e), is_step_collision_free = (\<lambda>e x tmp. True),
      line_search_begin = (\<lambda>e x tmp. e), line_search_end = (\<lambda>e. e),
      problem_init = (\<lambda>e x. e), use_full_size = (\<lambda>e. e), use_reduced_size = (\<lambda>e. e),
      set_apply_DBC = (\<lambda>e x b. e),
      minimize = (\<lambda>e x. (Suc e, x, None)),
      iterations = (\<lambda>e. 100), set_iterations = (\<lambda>e n. e),
      pen_enable = (\<lambda>e. e), pen_disable = (\<lambda>e. e), pen_set_weight = (\<lambda>e w. e),
      pen_compute_error = (\<lambda>e x. 1),
      lagr_enable = (\<lambda>e. e), lagr_disable = (\<lambda>e. e), update_lagrangian = (\<lambda>e x w. e),
      update_barrier_stiffness = (\<lambda>e x. e), post_subsolve = (\<lambda>e w. e)\<rparr>"

definition solver :: "real \<Rightarrow> real \<Rightarrow> real \<Rightarrow> ALSolver" where
  "solver w0 s wmax = \<lparr>has_lagr_form = True, has_pen_form = True, initial_al_weight = w0,
      scaling = s, max_al_weight = wmax, eta_tol = 1 / 2\<rparr>"

text \<open>
  The loop state after one iteration of \<open>solver 1 2 5\<close> on \<open>counting\<close>, started on the
  solution \<open>[0]\<close> with no call made; the shared state in which \<open>solver 1 10 5\<close> returns.
\<close>

definition one_iteration :: "nat al_state" where
  "one_iteration = \<lparr>world = \<lparr>env = 1, calls =
        [LineSearchBegin,
         LineSearchEnd, PenEnable, LagrEnable, PenSetWeight 1, UseFullSize, SetApplyDBC False,
         ProblemInit, UpdateBarrierStiffness, Minimize,
         PenDisable, LagrDisable, UseReducedSize, SetApplyDBC True,
         LineSearchBegin, PostSubsolve 2]\<rparr>,
      sol = [0], tmp_sol = [0], al_weight = 2, al_steps = 1\<rparr>"

definition counting_result :: "nat world" where
  "counting_result = \<lparr>env = 2, calls =
        [LineSearchBegin,
         LineSearchEnd, PenEnable, LagrEnable, PenSetWeight 1, UseFullSize, SetApplyDBC False,
         ProblemInit, UpdateBarrierStiffness, Minimize,
         PenDisable, LagrDisable, UseReducedSize, SetApplyDBC True,
         LineSearchBegin, PostSubsolve 10,
         LineSearchEnd, PenEnable, LagrEnable, PenSetWeight 10, UseFullSize, SetApplyDBC False,
         ProblemInit, UpdateBarrierStiffness, Minimize,
         PenDisable, LagrDisable, UseReducedSize, SetApplyDBC True,
         LineSearchBegin, UpdateLagrangian 10, PostSubsolve 10,
         LineSearchEnd, SetIterations 100]\<rparr>"

section \<open>Theorems\<close>

lemma set_at_length: "set_at ws i v = Inr ws' \<Longrightarrow> length ws' = length ws"
  by (auto simp: set_at_def split: if_splits)

lemma simpson_fold_length:
  "foldl (simpson_step d) acc is = Inr ws' \<Longrightarrow> acc = Inr ws \<Longrightarrow> length ws' = length ws"
proof (induction "is" arbitrary: acc ws)
  case Nil
  then show ?case by simp
next
  case (Cons i "is")
  show ?case
  proof (cases "simpson_step d acc i")
    case (Inl e)
    have "foldl (simpson_step d) (Inl e) is = Inl e"
      by (induction "is") (simp_all add: simpson_step_def)
    with Cons.prems Inl show ?thesis by simp
  next
    case (Inr w1)
    with Cons.prems have "length w1 = length ws"
      by (auto simp: simpson_step_def dest: set_at_length split: if_splits)
    moreover from Cons.prems Inr have "length ws' = length w1"
      using Cons.IH [of "Inr w1" w1] by simp
    ultimately show ?thesis by simp
  qed
qed

lemma weights_length:
  "get_transient_quadrature_weights t = Inr ws \<Longrightarrow> int (length ws) = time_steps' t + 1"
  unfolding get_transient_quadrature_weights_def
  by (auto simp: assign_def split: sum.splits if_splits
           dest!: set_at_length dest: simpson_fold_length)

text \<open>
  C4. For \<^verbatim>\<open>time_steps' = 4\<close> and \<^verbatim>\<open>dt' = 1.0\<close> the weights are \<^verbatim>\<open>[0,1,1,1,1]\<close> for
  "uniform", \<^verbatim>\<open>[0.5,1,1,1,0.5]\<close> for "trapezoidal", \<^verbatim>\<open>[0,0,0,0,1]\<close> for "final",
  \<^verbatim>\<open>[0,0,1,0,0]\<close> for "step_2" and \<^verbatim>\<open>[1/3, 4/3, 2/4, 4/3, 1/3]\<close> for "simpson"; each
  vector has \<^verbatim>\<open>time_steps + 1 = 5\<close> entries.
\<close>

theorem transient_weights_table:
  "get_transient_quadrature_weights
     \<lparr>time_steps' = 4, dt' = 1, transient_integral_type' = ''uniform''\<rparr> = Inr [0, 1, 1, 1, 1]
   \<and> get_transient_quadrature_weights
     \<lparr>time_steps' = 4, dt' = 1, transient_integral_type' = ''trapezoidal''\<rparr>
       = Inr [1 / 2, 1, 1, 1, 1 / 2]
   \<and> get_transient_quadrature_weights
     \<lparr>time_steps' = 4, dt' = 1, transient_integral_type' = ''final''\<rparr> = Inr [0, 0, 0, 0, 1]
   \<and> get_transient_quadrature_weights
     \<lparr>time_steps' = 4, dt' = 1, transient_integral_type' = ''step_2''\<rparr> = Inr [0, 0, 1, 0, 0]
   \<and> get_transient_quadrature_weights
     \<lparr>time_steps' = 4, dt' = 1, transient_integral_type' = ''simpson''\<rparr>
       = Inr [1 / 3, 4 / 3, 2 / 4, 4 / 3, 1 / 3]
   \<and> map (\<lambda>rule. map_sum id length (get_transient_quadrature_weights
              \<lparr>time_steps' = 4, dt' = 1, transient_integral_type' = rule\<rparr>))
         [''uniform'', ''trapezoidal'', ''final'', ''step_2'', ''simpson'']
       = replicate 5 (Inr (nat (4 + 1)))"
  by code_simp


subsection \<open>VolumePaneltyObjective\<close>

lemma penalty_value_min_max:
  assumes "fst (bound P) \<le> snd (bound P)"
  shows "VolumePaneltyObjective_value (at_volume P v)
         = (min (v - fst (bound P)) 0)\<^sup>2 + (max (v - snd (bound P)) 0)\<^sup>2"
  using assms by (auto simp: VolumePaneltyObjective_value_def at_volume_def min_def max_def)

lemma penalty_gradient_min_max:
  assumes "fst (bound P) \<le> snd (bound P)"
    and "i < length (obj_compute_partial_gradient (obj P) param)"
  shows "VolumePaneltyObjective_compute_partial_gradient (at_volume P v) param ! i
         = (2 * min (v - fst (bound P)) 0 + 2 * max (v - snd (bound P)) 0)
           * obj_compute_partial_gradient (obj P) param ! i"
  using assms
  by (auto simp: VolumePaneltyObjective_compute_partial_gradient_def at_volume_def
        vec_scale_def vec_zero_def min_def max_def Let_def)

lemma penalty_value_continuous:
  assumes "fst (bound P) \<le> snd (bound P)"
  shows "isCont (\<lambda>v. VolumePaneltyObjective_value (at_volume P v)) x"
  unfolding penalty_value_min_max [OF assms]
  by (intro continuous_intros)

lemma penalty_gradient_continuous:
  assumes "fst (bound P) \<le> snd (bound P)"
    and "i < length (obj_compute_partial_gradient (obj P) param)"
  shows "isCont (\<lambda>v. VolumePaneltyObjective_compute_partial_gradient (at_volume P v) param ! i) x"
  unfolding penalty_gradient_min_max [OF assms]
  by (intro continuous_intros)

text \<open>
  C7. For bounds \<open>lo \<le> hi\<close> and volume \<open>vol = obj->value()\<close>: the value is \<open>0\<close> for
  \<open>lo \<le> vol \<le> hi\<close>, \<open>(vol - lo)\<^sup>2\<close> for \<open>vol < lo\<close> and \<open>(vol - hi)\<^sup>2\<close> for \<open>vol > hi\<close>;
  the partial gradient is \<open>2 (vol - lo) dvol\<close> below, \<open>2 (vol - hi) dvol\<close> above and the
  zero vector inside; as functions of the volume, the value and every entry of the
  gradient are continuous at \<open>vol = lo\<close> and at \<open>vol = hi\<close>.
\<close>

theorem VolumePanelty_soft_bound:
  assumes "fst (bound P) \<le> snd (bound P)"
  shows "(let lo = fst (bound P); hi = snd (bound P); vol = obj_value (obj P);
              dvol = obj_compute_partial_gradient (obj P) param in
          (lo \<le> vol \<and> vol \<le> hi \<longrightarrow>
             VolumePaneltyObjective_value P = 0
             \<and> VolumePaneltyObjective_compute_partial_gradient P param = vec_zero (length dvol))
          \<and> (vol < lo \<longrightarrow>
             VolumePaneltyObjective_value P = (vol - lo)\<^sup>2
             \<and> VolumePaneltyObjective_compute_partial_gradient P param
                 = vec_scale (2 * (vol - lo)) dvol)
          \<and> (vol > hi \<longrightarrow>
             VolumePaneltyObjective_value P = (vol - hi)\<^sup>2
             \<and> VolumePaneltyObjective_compute_partial_gradient P param
                 = vec_scale (2 * (vol - hi)) dvol)
          \<and> isCont (\<lambda>v. VolumePaneltyObjective_value (at_volume P v)) lo
          \<and> isCont (\<lambda>v. VolumePaneltyObjective_value (at_volume P v)) hi
          \<and> (\<forall>i < length dvol.
               isCont (\<lambda>v. VolumePaneltyObjective_compute_partial_gradient (at_volume P v) param ! i) lo
               \<and> isCont (\<lambda>v. VolumePaneltyObjective_compute_partial_gradient (at_volume P v) param ! i) hi))"
proof -
  have cases: "(fst (bound P) \<le> obj_value (obj P) \<and> obj_value (obj P) \<le> snd (bound P) \<longrightarrow>
             VolumePaneltyObjective_value P = 0
             \<and> VolumePaneltyObjective_compute_partial_gradient P param
                = vec_zero (length (obj_compute_partial_gradient (obj P) param)))
          \<and> (obj_value (obj P) < fst (bound P) \<longrightarrow>
             VolumePaneltyObjective_value P = (obj_value (obj P) - fst (bound P))\<^sup>2
             \<and> VolumePaneltyObjective_compute_partial_gradient P param
                 = vec_scale (2 * (obj_value (obj P) - fst (bound P))) (obj_compute_partial_gradient (obj P) param))
          \<and> (obj_value (obj P) > snd (bound P) \<longrightarrow>
             VolumePaneltyObjective_value P = (obj_value (obj P) - snd (bound P))\<^sup>2
             \<and> VolumePaneltyObjective_compute_partial_gradient P param
                 = vec_scale (2 * (obj_value (obj P) - snd (bound P))) (obj_compute_partial_gradient (obj P) param))"
    using assms
    by (auto simp: VolumePaneltyObjective_value_def VolumePaneltyObjective_compute_partial_gradient_def)
  show ?thesis
    unfolding Let_def
    using cases penalty_value_continuous [OF assms] penalty_gradient_continuous [OF assms]
    by blast
qed

theorem VolumePanelty_soft_bound_witness:
  "fst (bound \<lparr>bound = (2, 3), obj = unit_volume\<rparr>) \<le> snd (bound \<lparr>bound = (2, 3), obj = unit_volume\<rparr>)
   \<and> VolumePaneltyObjective_value \<lparr>bound = (2, 3), obj = unit_volume\<rparr> = 1
   \<and> VolumePaneltyObjective_compute_partial_gradient \<lparr>bound = (2, 3), obj = unit_volume\<rparr>
        \<lparr>address = 0, full_dim = 2\<rparr> = [- 2, - 4]
   \<and> isCont (\<lambda>v. VolumePaneltyObjective_value (at_volume \<lparr>bound = (2, 3), obj = unit_volume\<rparr> v)) 2
   \<and> isCont (\<lambda>v. VolumePaneltyObjective_compute_partial_gradient
                      (at_volume \<lparr>bound = (2, 3), obj = unit_volume\<rparr> v)
                      \<lparr>address = 0, full_dim = 2\<rparr> ! 1) 3"
  using VolumePanelty_soft_bound [of "\<lparr>bound = (2, 3), obj = unit_volume\<rparr>" "\<lparr>address = 0, full_dim = 2\<rparr>"]
  by (simp add: unit_volume_def vec_scale_def Let_def)

subsection \<open>BarycenterTargetObjective\<close>

lemma squaredNorm_sub_upt:
  "map_sum id squaredNorm (vec_sub (map f [0..<n]) (map g [0..<n]))
   = Inr (\<Sum>d<n. (f d - g d)\<^sup>2)"
proof -
  have "map2 (-) (map f [0..<n]) (map g [0..<n]) = map (\<lambda>d. f d - g d) [0..<n]"
    by (simp add: map2_map_map)
  then show ?thesis
    by (simp add: vec_sub_def squaredNorm_def comp_def interv_sum_list_conv_sum_set_nat
          atLeast0LessThan)
qed

lemma get_target_per_step:
  assumes "cols (target' B) = dim' B" and "1 < rows (target' B)"
    and "time_step' B < rows (target' B)"
  shows "get_target B = Inr (map (coeff (target' B) (time_step' B)) [0..<dim' B])"
  using assms by (simp add: get_target_def matrix_row_def)

lemma get_target_single:
  assumes "cols (target' B) = dim' B" and "rows (target' B) = 1"
  shows "get_target B = (if dim' B = 1 then Inr (coeffs (target' B)) else Inl AssertFailed)"
  using assms by (simp add: get_target_def vector_of_matrix_def)

text \<open>
  With one target per time step the value is the squared distance of the centroid to
  the target of the current time step.
\<close>

lemma barycenter_value_per_step_target:
  assumes "obj_value (objv B) \<noteq> 0"
    and "length (objp B) = dim' B"
    and "cols (target' B) = dim' B" and "1 < rows (target' B)"
    and "time_step' B < rows (target' B)"
  shows "BarycenterTargetObjective_value B
         = Inr (\<Sum>d<dim' B. (obj_value (objp B ! d) / obj_value (objv B)
                   - coeff (target' B) (time_step' B) d)\<^sup>2)"
proof -
  have c: "get_barycenter B
           = Inr (map (\<lambda>d. obj_value (objp B ! d) / obj_value (objv B)) [0..<dim' B])"
    using assms(1,2) by (simp add: get_barycenter_def)
  show ?thesis
    unfolding BarycenterTargetObjective_value_def c get_target_per_step [OF assms(3-5)]
    by (simp add: squaredNorm_sub_upt)
qed

lemma square_barycenter_value:
  "BarycenterTargetObjective_value square_barycenter = Inr (1 / 2)
   \<and> BarycenterTargetObjective_value (square_barycenter\<lparr>time_step' := 0\<rparr>) = Inr (5 / 2)"
  using barycenter_value_per_step_target [of square_barycenter]
    barycenter_value_per_step_target [of "square_barycenter\<lparr>time_step' := 0\<rparr>"]
  by (simp add: square_barycenter_def pos_obj_def coeff_def
        lessThan_Suc numeral_2_eq_2 power2_eq_square)

text \<open>With a single target in two or more dimensions the value is never computed.\<close>

lemma barycenter_value_single_target:
  assumes "obj_value (objv B) \<noteq> 0"
    and "length (objp B) = dim' B"
    and "cols (target' B) = dim' B" and "rows (target' B) = 1" and "2 \<le> dim' B"
  shows "BarycenterTargetObjective_value B = Inl AssertFailed"
  using assms
  by (simp add: BarycenterTargetObjective_value_def get_barycenter_def get_target_single)

text \<open>
  C8. When the value of the \<^verbatim>\<open>VolumeObjective\<close> is not zero, \<^verbatim>\<open>value()\<close> is claimed to be
  the squared Euclidean norm of \<open>centroid - target\<close>, the target being the stored point.
  For a body of volume \<open>2\<close> with the centroid \<open>(1/2, 3/2)\<close> and the single stored target
  \<open>(1, 1)\<close> that norm is \<open>1/2\<close>, but \<^verbatim>\<open>get_target\<close> fails in \<^verbatim>\<open>return target_;\<close>, the
  conversion of a matrix of one row and two columns to a vector, and so does
  \<^verbatim>\<open>value()\<close>.
\<close>

theorem barycenter_single_target_fails:
  "obj_value (objv single_target_square) = 2
   \<and> get_barycenter single_target_square = Inr [1 / 2, 3 / 2]
   \<and> matrix_row (target' single_target_square) 0 = [1, 1]
   \<and> map_sum id squaredNorm
         (vec_sub [1 / 2, 3 / 2] (matrix_row (target' single_target_square) 0)) = Inr (1 / 2)
   \<and> get_target single_target_square = Inl AssertFailed
   \<and> BarycenterTargetObjective_value single_target_square = Inl AssertFailed"
  by (simp add: BarycenterTargetObjective_value_def get_barycenter_def get_target_def
        vector_of_matrix_def single_target_square_def pos_obj_def matrix_row_def coeff_def
        vec_sub_def squaredNorm_def upt_rec numeral_2_eq_2 power2_eq_square)

subsection \<open>SumObjective\<close>

lemma foldl_add_sum_list: "foldl (\<lambda>val x. val + f x) (a::real) xs = a + sum_list (map f xs)"
  by (induction xs arbitrary: a) (simp_all add: add.assoc)

lemma SumObjective_value_additive:
  "SumObjective_value S = sum_list (map obj_value (objs S))"
  by (simp add: SumObjective_value_def foldl_add_sum_list)

lemma foldl_vec_add:
  assumes "length g = n" and "\<forall>v \<in> set vs. length v = n"
  shows "foldl (\<lambda>grad v. case grad of Inl e \<Rightarrow> Inl e | Inr a \<Rightarrow> vec_add a v) (Inr g) vs
         = Inr (map2 (+) g (vec_sum n vs))"
  using assms
proof (induction vs arbitrary: g)
  case Nil
  then have "map2 (+) g (vec_sum n []) = g"
    by (intro nth_equalityI) (simp_all add: vec_sum_def)
  then show ?case by simp
next
  case (Cons v vs)
  let ?g = "map2 (+) g v"
  have len: "length ?g = n" using Cons.prems by simp
  have "map2 (+) ?g (vec_sum n vs) = map2 (+) g (vec_sum n (v # vs))"
    using Cons.prems by (intro nth_equalityI) (simp_all add: vec_sum_def)
  moreover have "vec_add g v = Inr ?g" using Cons.prems by (simp add: vec_add_def)
  ultimately show ?case using Cons.IH [OF len] Cons.prems by simp
qed

lemma SumObjective_partial_gradient_additive:
  assumes "\<forall>obj \<in> set (objs S). length (obj_compute_partial_gradient obj param) = full_dim param"
  shows "SumObjective_compute_partial_gradient S param
         = Inr (vec_sum (full_dim param)
                  (map (\<lambda>obj. obj_compute_partial_gradient obj param) (objs S)))"
proof -
  let ?n = "full_dim param"
  let ?vs = "map (\<lambda>obj. obj_compute_partial_gradient obj param) (objs S)"
  have "SumObjective_compute_partial_gradient S param
        = foldl (\<lambda>grad v. case grad of Inl e \<Rightarrow> Inl e | Inr a \<Rightarrow> vec_add a v)
            (Inr (vec_zero ?n)) ?vs"
    by (simp add: SumObjective_compute_partial_gradient_def foldl_map)
  also have "\<dots> = Inr (map2 (+) (vec_zero ?n) (vec_sum ?n ?vs))"
    using assms by (intro foldl_vec_add) (auto simp: vec_zero_def)
  also have "map2 (+) (vec_zero ?n) (vec_sum ?n ?vs) = vec_sum ?n ?vs"
    by (intro nth_equalityI) (simp_all add: vec_sum_def vec_zero_def)
  finally show ?thesis .
qed

lemma SumObjective_adjoint_rhs_single_column:
  assumes "\<forall>obj \<in> set (objs S). rows (obj_compute_adjoint_rhs obj st) = ndof st
             \<and> cols (obj_compute_adjoint_rhs obj st) = 1
             \<and> matrix_ok (obj_compute_adjoint_rhs obj st)"
  shows "SumObjective_compute_adjoint_rhs S st
         = Inr (matrix_sum (ndof st) 1
                  (map (\<lambda>obj. obj_compute_adjoint_rhs obj st) (objs S)))"
proof -
  let ?n = "ndof st"
  let ?ms = "map (\<lambda>obj. obj_compute_adjoint_rhs obj st) (objs S)"
  have add_col: "\<And>r obj. obj \<in> set (objs S) \<Longrightarrow> length r = ?n \<Longrightarrow>
        vec_add_matrix r (obj_compute_adjoint_rhs obj st)
        = vec_add r (coeffs (obj_compute_adjoint_rhs obj st))"
    using assms by (simp add: vec_add_matrix_def vec_add_def matrix_ok_def)
  have conv: "foldl (\<lambda>rhs obj. case rhs of Inl e \<Rightarrow> Inl e
                   | Inr r \<Rightarrow> vec_add_matrix r (obj_compute_adjoint_rhs obj st)) (Inr g) os
          = foldl (\<lambda>grad v. case grad of Inl e \<Rightarrow> Inl e | Inr a \<Rightarrow> vec_add a v) (Inr g)
              (map (\<lambda>obj. coeffs (obj_compute_adjoint_rhs obj st)) os)"
    if "set os \<subseteq> set (objs S)" and "length g = ?n" for os g
    using that
  proof (induction os arbitrary: g)
    case Nil
    then show ?case by simp
  next
    case (Cons a os)
    have la: "length (coeffs (obj_compute_adjoint_rhs a st)) = ?n"
      using assms Cons.prems(1) by (simp add: matrix_ok_def)
    have "length (map2 (+) g (coeffs (obj_compute_adjoint_rhs a st))) = ?n"
      using la Cons.prems(2) by simp
    then show ?case
      using Cons.IH [of "map2 (+) g (coeffs (obj_compute_adjoint_rhs a st))"] Cons.prems la
      by (simp add: add_col vec_add_def)
  qed
  from conv [of "objs S" "vec_zero ?n"]
  have "SumObjective_compute_adjoint_rhs S st
        = map_sum id matrix_of_vector
            (foldl (\<lambda>grad v. case grad of Inl e \<Rightarrow> Inl e | Inr a \<Rightarrow> vec_add a v)
               (Inr (vec_zero ?n)) (map coeffs ?ms))"
    by (simp add: SumObjective_compute_adjoint_rhs_def vec_zero_def comp_def)
  also have "foldl (\<lambda>grad v. case grad of Inl e \<Rightarrow> Inl e | Inr a \<Rightarrow> vec_add a v)
               (Inr (vec_zero ?n)) (map coeffs ?ms)
             = Inr (map2 (+) (vec_zero ?n) (vec_sum ?n (map coeffs ?ms)))"
    using assms by (intro foldl_vec_add) (auto simp: vec_zero_def matrix_ok_def)
  also have "map2 (+) (vec_zero ?n) (vec_sum ?n (map coeffs ?ms)) = vec_sum ?n (map coeffs ?ms)"
    by (intro nth_equalityI) (simp_all add: vec_sum_def vec_zero_def)
  finally show ?thesis
    by (simp add: matrix_of_vector_def matrix_sum_def vec_sum_def comp_def)
qed

text \<open>
  C6. \<^verbatim>\<open>SumObjective::value()\<close> is the sum of the sub-objectives' values and
  \<^verbatim>\<open>compute_partial_gradient\<close> the elementwise sum of their gradients (the two lemmas
  above). \<^verbatim>\<open>compute_adjoint_rhs\<close> is claimed to be the elementwise sum of the
  sub-objectives' right-hand sides, one column per time step. It accumulates into a
  single-column vector of \<^verbatim>\<open>state.ndof()\<close> entries instead: with one degree of freedom
  and one sub-objective whose right-hand side has the two columns \<open>1\<close> and \<open>2\<close>, the
  size check of \<^verbatim>\<open>rhs += ...\<close> fails where the sum is that same matrix, and with no
  sub-objective the result has one column whatever the number of time steps.
\<close>

theorem SumObjective_adjoint_rhs_two_steps:
  "SumObjective_compute_adjoint_rhs \<lparr>objs = [two_step_obj]\<rparr> (small_state 1) = Inl AssertFailed
   \<and> matrix_sum (ndof (small_state 1)) (length (diff_cached (small_state 1)))
         (map (\<lambda>obj. obj_compute_adjoint_rhs obj (small_state 1)) [two_step_obj])
       = \<lparr>rows = 1, cols = 2, coeffs = [1, 2]\<rparr>
   \<and> SumObjective_compute_adjoint_rhs \<lparr>objs = []\<rparr> (small_state 1)
       = Inr \<lparr>rows = 1, cols = 1, coeffs = [0]\<rparr>"
  by (simp add: SumObjective_compute_adjoint_rhs_def two_step_obj_def vec_add_matrix_def
        vec_zero_def matrix_sum_def matrix_of_vector_def numeral_2_eq_2 small_state_def)

subsection \<open>TargetObjective\<close>

text \<open>
  \<^verbatim>\<open>set_reference\<close> collects elements of selected bodies only and writes map entries
  for collected elements only: with a non-empty selection, an element of a body outside
  it keeps the entry it had, or none.
\<close>

lemma set_omap_update: "set (omap_update k v m) \<subseteq> insert (k, v) (set m)"
  by (induction m) (auto split: if_splits)

lemma in_omap_update:
  "(a, b) \<in> set (omap_update k v m) \<Longrightarrow> (a = k \<and> b = v) \<or> (a, b) \<in> set m"
  using set_omap_update [of k v m] by blast

lemma collect_step_selected:
  assumes "\<forall>kv \<in> set (fst acc). \<forall>x \<in> set (snd kv). ids = {} \<or> get_body_id st x \<in> ids"
  shows "\<forall>kv \<in> set (fst (collect_step st ids acc e)).
           \<forall>x \<in> set (snd kv). ids = {} \<or> get_body_id st x \<in> ids"
proof (cases acc)
  case (Pair m cnt)
  show ?thesis
  proof (cases "ids \<noteq> {} \<and> get_body_id st e \<notin> ids")
    case True
    with Pair assms show ?thesis by (simp add: collect_step_def)
  next
    case False
    show ?thesis
    proof (cases "map_of m (get_body_id st e)")
      case None
      with False Pair have "fst (collect_step st ids acc e) = omap_update (get_body_id st e) [e] m"
        by (auto simp: collect_step_def)
      with assms Pair False show ?thesis
        by (fastforce dest!: in_omap_update)
    next
      case (Some es)
      then have in_m: "(get_body_id st e, es) \<in> set m" by (rule map_of_SomeD)
      from Some False Pair
      have "fst (collect_step st ids acc e) = omap_update (get_body_id st e) (es @ [e]) m"
        by (auto simp: collect_step_def)
      with assms Pair False in_m show ?thesis
        by (fastforce dest!: in_omap_update)
    qed
  qed
qed

lemma collect_elements_selected:
  "\<forall>kv \<in> set (fst (collect_elements st ids)).
      \<forall>x \<in> set (snd kv). ids = {} \<or> get_body_id st x \<in> ids"
proof -
  have "\<forall>kv \<in> set (fst (foldl (collect_step st ids) acc xs)).
           \<forall>x \<in> set (snd kv). ids = {} \<or> get_body_id st x \<in> ids"
    if "\<forall>kv \<in> set (fst acc). \<forall>x \<in> set (snd kv). ids = {} \<or> get_body_id st x \<in> ids"
    for acc xs
    using that
  proof (induction xs arbitrary: acc)
    case Nil
    then show ?case by simp
  next
    case (Cons a xs)
    from Cons.IH [OF collect_step_selected [OF Cons.prems]] show ?case by simp
  qed
  from this [of "([], 0)"] show ?thesis by (simp add: collect_elements_def)
qed

lemma foldl_and_then_Inl:
  "foldl (\<lambda>acc i. and_then acc (f i)) (Inl err) xs = Inl err"
  by (induction xs) (simp_all add: and_then_def)

lemma pair_elements_frame:
  assumes "pair_elements m es ref_es = Inr m'" and "x \<notin> set es"
  shows "m' x = m x"
proof -
  have "m' x = m0 x"
    if "foldl (\<lambda>acc i. and_then acc (\<lambda>m'. and_then (nth_checked ref_es i)
                        (\<lambda>r. Inr (m'(es ! i \<mapsto> r))))) (Inr m0) ixs = Inr m'"
      and "\<forall>i \<in> set ixs. i < length es"
    for m0 ixs
    using that
  proof (induction ixs arbitrary: m0)
    case Nil
    then show ?case by simp
  next
    case (Cons i ixs)
    show ?case
    proof (cases "nth_checked ref_es i")
      case (Inl err)
      let ?f = "\<lambda>i m'. and_then (nth_checked ref_es i) (\<lambda>r. Inr (m'(es ! i \<mapsto> r)))"
      have "foldl (\<lambda>acc i. and_then acc (?f i)) (Inr m0) (i # ixs)
            = foldl (\<lambda>acc i. and_then acc (?f i)) (Inl err) ixs"
        by (simp only: foldl_Cons and_then_def Inl sum.case)
      also have "\<dots> = Inl err" by (rule foldl_and_then_Inl)
      finally have "Inl err = Inr m'" using Cons.prems(1) by (rule trans [OF sym])
      then show ?thesis by simp
    next
      case (Inr r)
      with Cons.prems have "m' x = (m0(es ! i \<mapsto> r)) x"
        by (intro Cons.IH) (simp_all add: and_then_def)
      moreover from Cons.prems(2) assms(2) have "es ! i \<noteq> x" by auto
      ultimately show ?thesis by simp
    qed
  qed
  from this [of m "[0..<length es]"] assms(1) show ?thesis
    by (simp add: pair_elements_def)
qed

lemma pair_bodies_frame:
  assumes "pair_bodies m interested ref_interested = Inr m'"
    and "\<forall>kv \<in> set interested. x \<notin> set (snd kv)"
  shows "m' x = m x"
  using assms unfolding pair_bodies_def
proof (induction interested arbitrary: m)
  case Nil
  then show ?case by simp
next
  case (Cons kv kvs)
  let ?ref = "case map_of ref_interested (fst kv) of Some es \<Rightarrow> es | None \<Rightarrow> []"
  show ?case
  proof (cases "pair_elements m (snd kv) ?ref")
    case (Inl err)
    let ?f = "\<lambda>kv m'. pair_elements m' (snd kv)
                (case map_of ref_interested (fst kv) of Some es \<Rightarrow> es | None \<Rightarrow> [])"
    have "foldl (\<lambda>acc kv. and_then acc (?f kv)) (Inr m) (kv # kvs)
          = foldl (\<lambda>acc kv. and_then acc (?f kv)) (Inl err) kvs"
      by (simp only: foldl_Cons and_then_def Inl sum.case)
    also have "\<dots> = Inl err" by (rule foldl_and_then_Inl)
    finally have "Inl err = Inr m'" using Cons.prems(1) by (rule trans [OF sym])
    then show ?thesis by simp
  next
    case (Inr m1)
    from Cons.prems(2) have "x \<notin> set (snd kv)" by simp
    from pair_elements_frame [OF Inr this] have "m1 x = m x" .
    moreover from Cons.prems Inr have "m' x = m1 x"
      by (intro Cons.IH) (simp_all add: and_then_def)
    ultimately show ?thesis by simp
  qed
qed

lemma set_reference_unselected:
  assumes "set_reference T (Some ref) ids = (lg, Inr T')"
    and "ids \<noteq> {}" and "get_body_id (state' T) e \<notin> ids"
  shows "e_to_ref_e' T' e = e_to_ref_e' T e"
proof -
  from assms(1) obtain m' where
    pb: "pair_bodies (e_to_ref_e' T) (fst (collect_elements (state' T) ids))
           (fst (collect_elements ref ids)) = Inr m'"
    and T': "T' = T\<lparr>target_state' := Some ref, e_to_ref_e' := m'\<rparr>"
    by (cases "pair_bodies (e_to_ref_e' T) (fst (collect_elements (state' T) ids))
           (fst (collect_elements ref ids))")
       (auto simp: set_reference_def Let_def split: prod.splits)
  from collect_elements_selected [of "state' T" ids] assms(2,3)
  have "\<forall>kv \<in> set (fst (collect_elements (state' T) ids)). e \<notin> set (snd kv)" by blast
  from pair_bodies_frame [OF pb this] T' show ?thesis by simp
qed

text \<open>
  C5. A reference simulation whose count of selected elements differs from this
  simulation's count is claimed to make \<^verbatim>\<open>set_reference\<close> fail. With one element here
  and two in the reference (all of body \<open>1\<close>, every body selected) the counts are \<open>1\<close>
  and \<open>2\<close>; the call writes one record of level \<^verbatim>\<open>error\<close> to the log, goes on to build
  the map \<open>0 \<mapsto> 0\<close> and returns. With two elements here and one in the reference it
  writes the same record and goes on to read past the end of the reference's element
  list.
\<close>

theorem set_reference_count_mismatch_continues:
  "collect_elements (small_state 1) {} = ([(1, [0])], 1)
   \<and> collect_elements (small_state 2) {} = ([(1, [0, 1])], 2)
   \<and> set_reference (fresh_target 1) (Some (small_state 2)) {}
     = ([(Error, ''Number of interested elements in the reference and optimization examples do not match!'', [])],
        Inr ((fresh_target 1)\<lparr>target_state' := Some (small_state 2), e_to_ref_e' := [0 \<mapsto> 0]\<rparr>))
   \<and> set_reference (fresh_target 2) (Some (small_state 1)) {}
     = ([(Error, ''Number of interested elements in the reference and optimization examples do not match!'', [])],
        Inl OutOfBounds)"
  by (simp add: set_reference_def collect_elements_def collect_step_def pair_bodies_def
        pair_elements_def and_then_def nth_checked_def fresh_target_def small_state_def
        upt_rec numeral_2_eq_2)

text \<open>
  C10, as stated: an element with no entry in \<^verbatim>\<open>e_to_ref_e_\<close>, as when \<^verbatim>\<open>set_reference\<close>
  was never called, is evaluated in the reference at its own index and nothing fails.
  Before any call of \<^verbatim>\<open>set_reference\<close> the map has no entry for element \<open>1\<close>, and there is
  no reference simulation: \<^verbatim>\<open>get_integral_functional\<close> fails its assertion, and the
  closures would read through the empty pointer.
\<close>

theorem target_without_reference_fails:
  "e_to_ref_e' (fresh_target 2) (params_elem \<lparr>params_elem = 1, params_step = 0\<rparr>) = None
   \<and> target_state' (fresh_target 2) = None
   \<and> get_integral_functional (fresh_target 2) = Inl AssertFailed
   \<and> j_func (fresh_target 2) [[0]] [[5]] [[3]] \<lparr>params_elem = 1, params_step = 0\<rparr>
       = Inl NullPointer
   \<and> djdu_func (fresh_target 2) [[0]] [[5]] [[3]] \<lparr>params_elem = 1, params_step = 0\<rparr>
       = Inl NullPointer"
  by (simp add: fresh_target_def get_integral_functional_def j_func_def djdu_func_def)

text \<open>
  C10, amended. Without a reference simulation \<^verbatim>\<open>get_integral_functional\<close> fails its
  assertion. With a reference simulation, an element \<open>e\<close> with no entry in
  \<^verbatim>\<open>e_to_ref_e_\<close> is looked up in the reference at the index \<open>e\<close> itself, in the integrand
  and in its derivative (the closure behind both derivative slots): they return what
  they return when the map sends \<open>e\<close> to \<open>e\<close>, which is an out-of-range read when the
  reference has no element \<open>e\<close>, and otherwise the rows computed from the reference
  geometry and the reference solution on element \<open>e\<close>. The missing entry is no error and
  no zero contribution.
\<close>

theorem target_missing_entry_falls_back:
  "(target_state' T = None \<longrightarrow>
      get_integral_functional T = Inl AssertFailed
      \<and> j_func T local_pts pts u prm = Inl NullPointer
      \<and> djdu_func T local_pts pts u prm = Inl NullPointer)
   \<and> (target_state' T = Some ref \<and> e_to_ref_e' T (params_elem prm) = None \<longrightarrow>
      (diff_cached ref \<noteq> [] \<longrightarrow>
         get_integral_functional T
         = Inr \<lparr>slot_j = j_func T, slot_dj_du = djdu_func T, slot_dj_dx = djdu_func T\<rparr>)
      \<and> j_func T local_pts pts u prm
          = j_func (T\<lparr>e_to_ref_e' := (e_to_ref_e' T)(params_elem prm \<mapsto> params_elem prm)\<rparr>)
              local_pts pts u prm
      \<and> djdu_func T local_pts pts u prm
          = djdu_func (T\<lparr>e_to_ref_e' := (e_to_ref_e' T)(params_elem prm \<mapsto> params_elem prm)\<rparr>)
              local_pts pts u prm
      \<and> j_func T local_pts pts u prm
          = (if n_bases ref \<le> params_elem prm then Inl OutOfBounds
             else case sol_ref ref prm of
                    Inl err \<Rightarrow> Inl err
                  | Inr rsol \<Rightarrow>
                      for_rows
                        (j_row (interpolate_at_local_vals ref (params_elem prm) local_pts rsol)
                           (eval_geom_mapping ref (params_elem prm) local_pts) u pts)
                        [0..<length u])
      \<and> djdu_func T local_pts pts u prm
          = (if n_bases ref \<le> params_elem prm then Inl OutOfBounds
             else case sol_ref ref prm of
                    Inl err \<Rightarrow> Inl err
                  | Inr rsol \<Rightarrow>
                      for_rows
                        (djdu_row (interpolate_at_local_vals ref (params_elem prm) local_pts rsol)
                           (eval_geom_mapping ref (params_elem prm) local_pts) u pts)
                        [0..<length u]))"
  by (auto simp: j_func_def djdu_func_def get_integral_functional_def Let_def
           split: option.splits sum.splits)

theorem target_missing_entry_witness:
  "target_state' (fresh_target 2) = None
   \<and> get_integral_functional (fresh_target 2) = Inl AssertFailed
   \<and> target_state' referenced_target = Some (small_state 2)
   \<and> e_to_ref_e' referenced_target (params_elem \<lparr>params_elem = 1, params_step = 0\<rparr>) = None
   \<and> diff_cached (small_state 2) \<noteq> []
   \<and> map_sum id (\<lambda>f. slot_j f [[0], [1]] [[5], [6]] [[3], [4]] \<lparr>params_elem = 1, params_step = 0\<rparr>)
         (get_integral_functional referenced_target) = Inr (Inr [36, 49])
   \<and> map_sum id (\<lambda>f. slot_dj_du f [[0], [1]] [[5], [6]] [[3], [4]]
                          \<lparr>params_elem = 1, params_step = 0\<rparr>)
         (get_integral_functional referenced_target) = Inr (Inr [[12], [14]])
   \<and> map_sum id (\<lambda>f. slot_dj_dx f [[0], [1]] [[5], [6]] [[3], [4]]
                          \<lparr>params_elem = 1, params_step = 0\<rparr>)
         (get_integral_functional referenced_target) = Inr (Inr [[12], [14]])
   \<and> j_func referenced_target [[0], [1]] [[5], [6]] [[3], [4]]
         \<lparr>params_elem = 1, params_step = 1\<rparr> = Inr [49, 64]
   \<and> j_func (referenced_target\<lparr>target_state' := Some ((small_state 2)\<lparr>is_time_dependent := False\<rparr>)\<rparr>)
         [[0], [1]] [[5], [6]] [[3], [4]] \<lparr>params_elem = 1, params_step = 1\<rparr> = Inr [36, 49]
   \<and> j_func referenced_target [[0], [1]] [[5], [6]] [[3], [4]]
         \<lparr>params_elem = 2, params_step = 0\<rparr> = Inl OutOfBounds
   \<and> j_func (referenced_target\<lparr>e_to_ref_e' := [1 \<mapsto> 0]\<rparr>) [[0], [1]] [[5], [6]] [[3], [4]]
         \<lparr>params_elem = 1, params_step = 0\<rparr> = Inr [49, 64]
   \<and> djdu_func (referenced_target\<lparr>e_to_ref_e' := [1 \<mapsto> 0]\<rparr>) [[0], [1]] [[5], [6]] [[3], [4]]
         \<lparr>params_elem = 1, params_step = 0\<rparr> = Inr [[14], [16]]"
proof -
  let ?lp = "[[0 :: real], [1]]" and ?pts = "[[5 :: real], [6]]" and ?u = "[[3 :: real], [4]]"
  let ?ref = "small_state 2"
  let ?still = "(small_state 2)\<lparr>is_time_dependent := False\<rparr>"
  let ?T' = "referenced_target\<lparr>target_state' := Some ?still\<rparr>"
  have none: "target_state' (fresh_target 2) = None" by (simp add: fresh_target_def)
  have some: "target_state' referenced_target = Some ?ref" by (simp add: referenced_target_def)
  have cached: "diff_cached ?ref \<noteq> []" by (simp add: small_state_def)
  have miss: "e_to_ref_e' referenced_target e = None" for e
    by (simp add: referenced_target_def)
  have n: "n_bases ?ref = 2" "n_bases ?still = 2" by (simp_all add: small_state_def)
  have sol0: "sol_ref ?ref \<lparr>params_elem = e, params_step = 0\<rparr> = Inr [1]" for e
    by (simp add: sol_ref_def small_state_def nth_checked_def)
  have sol1: "sol_ref ?ref \<lparr>params_elem = e, params_step = Suc 0\<rparr> = Inr [0]" for e
    by (simp add: sol_ref_def small_state_def nth_checked_def)
  have sol1': "sol_ref ?still \<lparr>params_elem = e, params_step = Suc 0\<rparr> = Inr [1]" for e
    by (simp add: sol_ref_def small_state_def nth_checked_def)
  have interp: "interpolate_at_local_vals ?ref e ?lp rsol = [[sum_list rsol], [sum_list rsol]]"
    "interpolate_at_local_vals ?still e ?lp rsol = [[sum_list rsol], [sum_list rsol]]" for e rsol
    by (simp_all add: small_state_def)
  have geom: "eval_geom_mapping ?ref e ?lp = [[real e], [1 + real e]]"
    "eval_geom_mapping ?still e ?lp = [[real e], [1 + real e]]" for e
    by (simp_all add: small_state_def)
  have rws: "for_rows (j_row [[a], [a']] [[b], [b']] ?u ?pts) [0..<Suc (Suc 0)]
             = Inr [(a + b - 8)\<^sup>2, (a' + b' - 10)\<^sup>2]" for a a' b b'
    by (simp add: j_row_def and_then_def nth_checked_def vec_add_def vec_sub_def squaredNorm_def)
  have drws: "for_rows (djdu_row [[a], [a']] [[b], [b']] ?u ?pts) [0..<Suc (Suc 0)]
              = Inr [[2 * (8 - (a + b))], [2 * (10 - (a' + b'))]]" for a a' b b'
    by (simp add: djdu_row_def and_then_def nth_checked_def vec_add_def vec_sub_def
          vec_scale_def)
  note fb = target_missing_entry_falls_back
  have a: "get_integral_functional (fresh_target 2) = Inl AssertFailed"
    using fb [where T = "fresh_target 2", THEN conjunct1, THEN mp, OF none] by (rule conjunct1)
  have at: "target_state' referenced_target = Some ?ref
            \<and> e_to_ref_e' referenced_target (params_elem prm) = None" for prm
    using some miss by simp
  have at': "target_state' ?T' = Some ?still \<and> e_to_ref_e' ?T' (params_elem prm) = None" for prm
    by (simp add: referenced_target_def)
  have f: "get_integral_functional referenced_target
           = Inr \<lparr>slot_j = j_func referenced_target, slot_dj_du = djdu_func referenced_target,
                  slot_dj_dx = djdu_func referenced_target\<rparr>"
    using fb [where T = referenced_target and ref = ?ref, THEN conjunct2, THEN mp, OF at,
        THEN conjunct1, THEN mp, OF cached] .
  have j0: "j_func referenced_target ?lp ?pts ?u \<lparr>params_elem = 1, params_step = 0\<rparr>
            = Inr [36, 49]"
    using fb [where T = referenced_target and ref = ?ref and local_pts = ?lp and pts = ?pts
        and u = ?u and prm = "\<lparr>params_elem = 1, params_step = 0\<rparr>", THEN conjunct2, THEN mp, OF at,
        THEN conjunct2, THEN conjunct2, THEN conjunct2, THEN conjunct1]
    by (simp add: n sol0 interp geom rws del: upt_Suc)
  have d0: "djdu_func referenced_target ?lp ?pts ?u \<lparr>params_elem = 1, params_step = 0\<rparr>
            = Inr [[12], [14]]"
    using fb [where T = referenced_target and ref = ?ref and local_pts = ?lp and pts = ?pts
        and u = ?u and prm = "\<lparr>params_elem = 1, params_step = 0\<rparr>", THEN conjunct2, THEN mp, OF at,
        THEN conjunct2, THEN conjunct2, THEN conjunct2, THEN conjunct2]
    by (simp add: n sol0 interp geom drws del: upt_Suc)
  have j1: "j_func referenced_target ?lp ?pts ?u \<lparr>params_elem = 1, params_step = 1\<rparr>
            = Inr [49, 64]"
    using fb [where T = referenced_target and ref = ?ref and local_pts = ?lp and pts = ?pts
        and u = ?u and prm = "\<lparr>params_elem = 1, params_step = 1\<rparr>", THEN conjunct2, THEN mp, OF at,
        THEN conjunct2, THEN conjunct2, THEN conjunct2, THEN conjunct1]
    by (simp add: n sol1 interp geom rws del: upt_Suc)
  have j1': "j_func ?T' ?lp ?pts ?u \<lparr>params_elem = 1, params_step = 1\<rparr> = Inr [36, 49]"
    using fb [where T = ?T' and ref = ?still and local_pts = ?lp and pts = ?pts
        and u = ?u and prm = "\<lparr>params_elem = 1, params_step = 1\<rparr>", THEN conjunct2, THEN mp, OF at',
        THEN conjunct2, THEN conjunct2, THEN conjunct2, THEN conjunct1]
    by (simp add: n sol1' interp geom rws del: upt_Suc)
  have j2: "j_func referenced_target ?lp ?pts ?u \<lparr>params_elem = 2, params_step = 0\<rparr>
            = Inl OutOfBounds"
    using fb [where T = referenced_target and ref = ?ref and local_pts = ?lp and pts = ?pts
        and u = ?u and prm = "\<lparr>params_elem = 2, params_step = 0\<rparr>", THEN conjunct2, THEN mp, OF at,
        THEN conjunct2, THEN conjunct2, THEN conjunct2, THEN conjunct1]
    by (simp add: n)
  have m0: "j_func (referenced_target\<lparr>e_to_ref_e' := [1 \<mapsto> 0]\<rparr>) ?lp ?pts ?u
              \<lparr>params_elem = 1, params_step = 0\<rparr> = Inr [49, 64]"
    by (simp add: j_func_def some n sol0 interp geom rws del: upt_Suc)
  have m1: "djdu_func (referenced_target\<lparr>e_to_ref_e' := [1 \<mapsto> 0]\<rparr>) ?lp ?pts ?u
              \<lparr>params_elem = 1, params_step = 0\<rparr> = Inr [[14], [16]]"
    by (simp add: djdu_func_def some n sol0 interp geom drws del: upt_Suc)
  from none a some miss cached f j0 d0 j1 j1' j2 m0 m1 show ?thesis by simp
qed

subsection \<open>ComplianceObjective\<close>

lemma and_then_Inr_iff:
  "and_then r f = Inr v \<longleftrightarrow> (\<exists>a. r = Inr a \<and> f a = Inr v)"
  by (cases r) (simp_all add: and_then_def)

lemma topology_point_length:
  "topology_point st ts e vals acc q = Inr v \<Longrightarrow> \<exists>t. acc = Inr t \<and> length v = length t"
  unfolding topology_point_def and_then_Inr_iff by auto

lemma foldl_topology_point_length:
  "foldl (topology_point st ts e vals) acc qs = Inr v \<Longrightarrow> \<exists>t. acc = Inr t \<and> length v = length t"
proof (induction qs arbitrary: acc)
  case Nil
  then show ?case by simp
next
  case (Cons q qs)
  from Cons.IH [of "topology_point st ts e vals acc q"] Cons.prems
  obtain t' where "topology_point st ts e vals acc q = Inr t'" and "length v = length t'"
    by auto
  with topology_point_length [of st ts e vals acc q t'] show ?case by auto
qed

lemma topology_element_length:
  "topology_element st ts acc e = Inr v \<Longrightarrow> \<exists>t. acc = Inr t \<and> length v = length t"
  unfolding topology_element_def Let_def by (rule foldl_topology_point_length)

lemma foldl_topology_element_length:
  "foldl (topology_element st ts) acc es = Inr v \<Longrightarrow> \<exists>t. acc = Inr t \<and> length v = length t"
proof (induction es arbitrary: acc)
  case Nil
  then show ?case by simp
next
  case (Cons e es)
  from Cons.IH [of "topology_element st ts acc e"] Cons.prems
  obtain t' where "topology_element st ts acc e = Inr t'" and "length v = length t'"
    by auto
  with topology_element_length [of st ts acc e t'] show ?case by auto
qed

lemma topology_term_length: "topology_term st ts t = Inr v \<Longrightarrow> length v = length t"
  unfolding topology_term_def by (drule foldl_topology_element_length) simp

lemma compliance_shape_never_returns:
  assumes "Some (address param) = shape_param' C" and "Some (address param) \<noteq> elastic_param' C"
  shows "ComplianceObjective_compute_partial_gradient C param = None"
proof (cases "ComplianceObjective_compute_partial_gradient C param")
  case None
  then show ?thesis .
next
  case (Some r)
  from Some
  have "\<not> (Some (address param) = shape_param' C \<and> Some (address param) \<noteq> elastic_param' C)"
    by (rule ComplianceObjective_compute_partial_gradient.raw_induct [rotated 1,
          where P = "\<lambda>C param r. \<not> (Some (address param) = shape_param' C
                                   \<and> Some (address param) \<noteq> elastic_param' C)"])
       (auto simp: Let_def split: if_splits Option.bind_splits)
  with assms show ?thesis by simp
qed


text \<open>Shape of the displacement gradient.\<close>

lemma add_basis_row_shape:
  assumes "add_basis_row u n q v acc d = Inr G'"
  shows "\<exists>G. acc = Inr G \<and> (length G = n \<and> (\<forall>r \<in> set G. length r = n)
                               \<longrightarrow> length G' = n \<and> (\<forall>r \<in> set G'. length r = n))"
proof -
  from assms obtain G c g_row row row' where
    acc: "acc = Inr G" and row: "nth_checked G d = Inr row"
    and add: "vec_add row (vec_scale c g_row) = Inr row'" and G': "G' = G[d := row']"
    unfolding add_basis_row_def and_then_Inr_iff by auto
  from row have "d < length G" and "row = G ! d"
    by (auto simp: nth_checked_def split: if_splits)
  moreover from add have "length row' = length row"
    by (auto simp: vec_add_def split: if_splits)
  ultimately have "length G = n \<and> (\<forall>r \<in> set G. length r = n)
                   \<longrightarrow> length G' = n \<and> (\<forall>r \<in> set G'. length r = n)"
    using G' set_update_subset_insert [of G d row'] by auto
  with acc show ?thesis by blast
qed

lemma foldl_add_basis_row_shape:
  assumes "foldl (add_basis_row u n q v) acc ds = Inr G'"
  shows "\<exists>G. acc = Inr G \<and> (length G = n \<and> (\<forall>r \<in> set G. length r = n)
                               \<longrightarrow> length G' = n \<and> (\<forall>r \<in> set G'. length r = n))"
  using assms
proof (induction ds arbitrary: acc)
  case Nil
  then show ?case by simp
next
  case (Cons d ds)
  from Cons.IH [of "add_basis_row u n q v acc d"] Cons.prems
  obtain G1 where 1: "add_basis_row u n q v acc d = Inr G1"
    and 2: "length G1 = n \<and> (\<forall>r \<in> set G1. length r = n)
            \<longrightarrow> length G' = n \<and> (\<forall>r \<in> set G'. length r = n)"
    by auto
  from add_basis_row_shape [OF 1] 2 show ?case by blast
qed

lemma compute_grad_u_q_shape:
  assumes "compute_grad_u_q u n q vs = Inr G"
  shows "length G = n \<and> (\<forall>r \<in> set G. length r = n)"
proof -
  have "\<exists>G0. acc = Inr G0 \<and> (length G0 = n \<and> (\<forall>r \<in> set G0. length r = n)
                               \<longrightarrow> length G = n \<and> (\<forall>r \<in> set G. length r = n))"
    if "foldl (\<lambda>acc v. foldl (add_basis_row u n q v) acc [0..<n]) acc vs = Inr G" for acc
    using that
  proof (induction vs arbitrary: acc)
    case Nil
    then show ?case by simp
  next
    case (Cons v vs)
    from Cons.IH [of "foldl (add_basis_row u n q v) acc [0..<n]"] Cons.prems
    obtain G1 where 1: "foldl (add_basis_row u n q v) acc [0..<n] = Inr G1"
      and 2: "length G1 = n \<and> (\<forall>r \<in> set G1. length r = n)
              \<longrightarrow> length G = n \<and> (\<forall>r \<in> set G. length r = n)"
      by auto
    from foldl_add_basis_row_shape [OF 1] 2 show ?case by blast
  qed
  from this [of "Inr (replicate n (replicate n 0))"] assms show ?thesis
    by (simp add: compute_grad_u_q_def)
qed

lemma sum_list_map2_nth:
  fixes f :: "'a \<Rightarrow> 'b \<Rightarrow> real"
  assumes "length xs = length ys"
  shows "sum_list (map2 f xs ys) = (\<Sum>i<length xs. f (xs ! i) (ys ! i))"
proof -
  have "map2 f xs ys = map (\<lambda>i. f (xs ! i) (ys ! i)) [0..<length xs]"
    using assms by (intro nth_equalityI) simp_all
  then show ?thesis
    by (simp add: interv_sum_list_conv_sum_set_nat atLeast0LessThan)
qed

lemma contraction_square:
  assumes "length a = n" and "\<forall>r \<in> set a. length r = n"
    and "length b = n" and "\<forall>r \<in> set b. length r = n"
  shows "contraction a b = Inr (\<Sum>i<n. \<Sum>l<n. a ! i ! l * b ! i ! l)"
proof -
  from assms have eq: "map length a = map length b"
    by (intro nth_equalityI) simp_all
  have "sum_list (map2 (\<lambda>ra rb. sum_list (map2 (*) ra rb)) a b)
        = (\<Sum>i<length a. sum_list (map2 (*) (a ! i) (b ! i)))"
    using assms by (intro sum_list_map2_nth) simp
  also have "\<dots> = (\<Sum>i<n. \<Sum>l<n. a ! i ! l * b ! i ! l)"
    using assms by (intro sum.cong) (simp_all add: sum_list_map2_nth)
  finally show ?thesis using eq by (simp add: contraction_def)
qed

lemma stress_LinearElasticity_shape:
  "length (stress_LinearElasticity n mu lam G) = n
   \<and> (\<forall>r \<in> set (stress_LinearElasticity n mu lam G). length r = n)"
  by (auto simp: stress_LinearElasticity_def Let_def)

lemma stress_LinearElasticity_nth:
  assumes "i < n" and "l < n"
  shows "stress_LinearElasticity n mu lam G ! i ! l
         = mu * (G ! i ! l + G ! l ! i) + lam * (\<Sum>k<n. G ! k ! k) * (if i = l then 1 else 0)"
  using assms
  by (simp add: stress_LinearElasticity_def Let_def interv_sum_list_conv_sum_set_nat
        atLeast0LessThan)

lemma topology_contribution_formula:
  assumes "nth_checked (quadrature_points vals) q = Inr pt"
    and "nth_checked (vals_val vals) q = Inr vl"
    and "lambda_mu st pt vl e = (lam, mu)"
    and "nth_checked (diff_cached st) ts = Inr u"
    and "compute_grad_u_q u (dimension st) q (basis_values vals) = Inr G"
    and "formulation st = ''LinearElasticity''"
    and "nth_checked (density_mat st) e = Inr rho"
    and "c_pow rho (density_power st - 1) = Inr pw"
    and "nth_checked (quadrature_weights vals) q = Inr w"
    and "nth_checked (vals_det vals) q = Inr dt"
  shows "topology_contribution st ts e vals q
         = Inr (density_power st * pw
                * (\<Sum>i<dimension st. \<Sum>l<dimension st.
                     (mu * (G ! i ! l + G ! l ! i)
                      + lam * (\<Sum>k<dimension st. G ! k ! k) * (if i = l then 1 else 0))
                     * G ! i ! l)
                * w * dt)"
proof -
  let ?n = "dimension st"
  from compute_grad_u_q_shape [OF assms(5)]
  have G: "length G = ?n" "\<forall>r \<in> set G. length r = ?n" by simp_all
  have "contraction (stress_LinearElasticity ?n mu lam G) G
        = Inr (\<Sum>i<?n. \<Sum>l<?n. stress_LinearElasticity ?n mu lam G ! i ! l * G ! i ! l)"
    using stress_LinearElasticity_shape [of ?n mu lam G] G
    by (intro contraction_square) simp_all
  also have "(\<Sum>i<?n. \<Sum>l<?n. stress_LinearElasticity ?n mu lam G ! i ! l * G ! i ! l)
             = (\<Sum>i<?n. \<Sum>l<?n.
                     (mu * (G ! i ! l + G ! l ! i)
                      + lam * (\<Sum>k<?n. G ! k ! k) * (if i = l then 1 else 0))
                     * G ! i ! l)"
    by (intro sum.cong refl) (simp add: stress_LinearElasticity_nth)
  finally show ?thesis
    using assms by (simp add: topology_contribution_def and_then_def)
qed

text \<open>The loops over the quadrature points and over the elements.\<close>

lemma foldl_topology_point_sum:
  assumes "e < length t"
    and "\<forall>q<n. topology_contribution st ts e vals q = Inr (c q)"
  shows "foldl (topology_point st ts e vals) (Inr t) [0..<n] = Inr (t[e := t ! e + (\<Sum>q<n. c q)])"
  using assms(2)
proof (induction n)
  case 0
  then show ?case by simp
next
  case (Suc n)
  let ?t = "t[e := t ! e + (\<Sum>q<n. c q)]"
  from Suc have prev: "foldl (topology_point st ts e vals) (Inr t) [0..<n] = Inr ?t" by simp
  from Suc.prems have "topology_contribution st ts e vals n = Inr (c n)" by simp
  with assms(1) have step: "topology_point st ts e vals (Inr ?t) n = Inr (?t[e := ?t ! e + c n])"
    by (simp add: topology_point_def and_then_def nth_checked_def)
  have "foldl (topology_point st ts e vals) (Inr t) [0..<Suc n]
        = topology_point st ts e vals (foldl (topology_point st ts e vals) (Inr t) [0..<n]) n"
    by simp
  also have "\<dots> = Inr (?t[e := ?t ! e + c n])" by (simp only: prev step)
  also have "?t[e := ?t ! e + c n] = t[e := t ! e + (\<Sum>q<Suc n. c q)]"
    using assms(1) by (simp add: add.assoc)
  finally show ?case .
qed

lemma foldl_topology_element_sum:
  assumes "m \<le> length t"
    and "\<forall>e<m. \<forall>q<length (quadrature_weights (ass_vals_cache_compute st e)).
           topology_contribution st ts e (ass_vals_cache_compute st e) q = Inr (c e q)"
  shows "foldl (topology_element st ts) (Inr t) [0..<m]
         = Inr (map (\<lambda>e. if e < m
                          then t ! e + (\<Sum>q<length (quadrature_weights (ass_vals_cache_compute st e)). c e q)
                          else t ! e) [0..<length t])"
  using assms
proof (induction m)
  case 0
  then show ?case by (simp add: map_nth)
next
  case (Suc m)
  let ?S = "\<lambda>e. \<Sum>q<length (quadrature_weights (ass_vals_cache_compute st e)). c e q"
  let ?t = "map (\<lambda>e. if e < m then t ! e + ?S e else t ! e) [0..<length t]"
  from Suc have prev: "foldl (topology_element st ts) (Inr t) [0..<m] = Inr ?t" by simp
  from Suc.prems have m: "m < length ?t" by simp
  from Suc.prems
  have "\<forall>q<length (quadrature_weights (ass_vals_cache_compute st m)).
          topology_contribution st ts m (ass_vals_cache_compute st m) q = Inr (c m q)" by simp
  from foldl_topology_point_sum [OF m this]
  have "topology_element st ts (Inr ?t) m = Inr (?t[m := ?t ! m + ?S m])"
    by (simp add: topology_element_def Let_def)
  moreover have "?t[m := ?t ! m + ?S m]
                 = map (\<lambda>e. if e < Suc m then t ! e + ?S e else t ! e) [0..<length t]"
    using Suc.prems(1) by (intro nth_equalityI) (auto simp: nth_list_update less_Suc_eq)
  ultimately show ?case using prev by simp
qed

lemma topology_term_sum:
  assumes "n_bases st \<le> n"
    and "\<forall>e<n_bases st. \<forall>q<length (quadrature_weights (ass_vals_cache_compute st e)).
           topology_contribution st ts e (ass_vals_cache_compute st e) q = Inr (c e q)"
  shows "topology_term st ts (vec_zero n)
         = Inr (map (\<lambda>e. if e < n_bases st
                          then (\<Sum>q<length (quadrature_weights (ass_vals_cache_compute st e)). c e q)
                          else 0) [0..<n])"
proof -
  have "length (vec_zero n) = n" by (simp add: vec_zero_def)
  with assms(1) have le: "n_bases st \<le> length (vec_zero n)" by simp
  have "map (\<lambda>e. if e < n_bases st
                  then vec_zero n ! e + (\<Sum>q<length (quadrature_weights (ass_vals_cache_compute st e)). c e q)
                  else vec_zero n ! e) [0..<length (vec_zero n)]
        = map (\<lambda>e. if e < n_bases st
                    then (\<Sum>q<length (quadrature_weights (ass_vals_cache_compute st e)). c e q)
                    else 0) [0..<n]"
    by (intro nth_equalityI) (simp_all add: vec_zero_def)
  with foldl_topology_element_sum [OF le assms(2)] show ?thesis
    by (simp add: topology_term_def)
qed

text \<open>The displacement gradient at the two quadrature points of \<open>plane_state\<close>.\<close>

lemma plane_grad_u_q_first:
  "compute_grad_u_q [7, 9, 1, 2] 2 0
     [\<lparr>v_global = [\<lparr>g_index = 1, g_val = 2\<rparr>], v_grad_t_m = [[1, 3], [0, 1]]\<rparr>,
      \<lparr>v_global = [\<lparr>g_index = 0, g_val = 1\<rparr>, \<lparr>g_index = 1, g_val = 1\<rparr>],
       v_grad_t_m = [[0, 0], [1, 0]]\<rparr>] = Inr [[2, 6], [4, 12]]"
  by (simp add: compute_grad_u_q_def add_basis_row_def basis_coeff_def and_then_def
        nth_checked_def vec_add_def vec_scale_def upt_rec numeral_2_eq_2)

lemma plane_grad_u_q_second:
  "compute_grad_u_q [7, 9, 1, 2] 2 1
     [\<lparr>v_global = [\<lparr>g_index = 1, g_val = 2\<rparr>], v_grad_t_m = [[1, 3], [0, 1]]\<rparr>,
      \<lparr>v_global = [\<lparr>g_index = 0, g_val = 1\<rparr>, \<lparr>g_index = 1, g_val = 1\<rparr>],
       v_grad_t_m = [[0, 0], [1, 0]]\<rparr>] = Inr [[8, 2], [11, 4]]"
  by (simp add: compute_grad_u_q_def add_basis_row_def basis_coeff_def and_then_def
        nth_checked_def vec_add_def vec_scale_def upt_rec numeral_2_eq_2)

text \<open>
  C9, as stated: for every parameter the call of \<^verbatim>\<open>compute_partial_gradient\<close> terminates
  and returns a vector of \<^verbatim>\<open>full_dim\<close> entries. For the elastic parameter the call
  raises "Not implemented!", and for the shape parameter it calls itself with the same
  argument and does not return.
\<close>

theorem compliance_partial_gradient_counterexample:
  "ComplianceObjective_compute_partial_gradient small_compliance \<lparr>address = 1, full_dim = 2\<rparr>
     = Some (Inl (RuntimeError ''Not implemented!''))
   \<and> ComplianceObjective_compute_partial_gradient small_compliance \<lparr>address = 2, full_dim = 2\<rparr>
     = None"
proof -
  have "ComplianceObjective_compute_partial_gradient small_compliance \<lparr>address = 1, full_dim = 2\<rparr>
        = Some (Inl (RuntimeError ''Not implemented!''))"
    by (subst ComplianceObjective_compute_partial_gradient.simps) (simp add: small_compliance_def)
  moreover
  have "ComplianceObjective_compute_partial_gradient small_compliance \<lparr>address = 2, full_dim = 2\<rparr>
        = None"
    by (rule compliance_shape_never_returns) (simp_all add: small_compliance_def)
  ultimately show ?thesis by simp
qed

text \<open>
  C9, amended. For the elastic parameter the call raises the fatal error "Not
  implemented!". For a parameter that is neither the elastic nor the shape parameter
  the call terminates; a vector it returns has \<^verbatim>\<open>full_dim\<close> entries, and it is the zero
  vector when the parameter is not the topology parameter either. For the topology
  parameter, when there are at most \<^verbatim>\<open>full_dim\<close> elements and the contribution of every
  quadrature point is defined, entry \<open>e\<close> of the result is the sum of the contributions
  of the quadrature points of element \<open>e\<close>, and \<open>0\<close> beyond the elements. The
  contribution of a point is
  \<open>density_power * pow(density e, density_power - 1) * (stress : grad_u) * weight * det\<close>,
  with \<open>stress = mu (grad_u + grad_u\<^sup>T) + lambda tr(grad_u) I\<close>.
\<close>

theorem compliance_partial_gradient_by_parameter:
  "(Some (address param) = elastic_param' C \<longrightarrow>
      ComplianceObjective_compute_partial_gradient C param
        = Some (Inl (RuntimeError ''Not implemented!'')))
   \<and> (Some (address param) \<noteq> elastic_param' C \<and> Some (address param) \<noteq> shape_param' C \<longrightarrow>
        (\<exists>r. ComplianceObjective_compute_partial_gradient C param = Some r
           \<and> (\<forall>v. r = Inr v \<longrightarrow> length v = full_dim param)
           \<and> (Some (address param) \<noteq> topo_param' C \<longrightarrow> r = Inr (vec_zero (full_dim param))))
        \<and> (Some (address param) = topo_param' C \<and> n_bases (state' C) \<le> full_dim param
             \<and> (\<forall>e<n_bases (state' C).
                  \<forall>q<length (quadrature_weights (ass_vals_cache_compute (state' C) e)).
                    topology_contribution (state' C) (time_step' C) e
                      (ass_vals_cache_compute (state' C) e) q = Inr (c e q)) \<longrightarrow>
             ComplianceObjective_compute_partial_gradient C param
             = Some (Inr (map (\<lambda>e. if e < n_bases (state' C)
                                     then \<Sum>q<length (quadrature_weights
                                                       (ass_vals_cache_compute (state' C) e)). c e q
                                     else 0)
                            [0..<full_dim param]))))
   \<and> (nth_checked (quadrature_points vals) q = Inr pt
        \<and> nth_checked (vals_val vals) q = Inr vl
        \<and> lambda_mu st pt vl e = (lam, mu)
        \<and> nth_checked (diff_cached st) ts = Inr u
        \<and> compute_grad_u_q u (dimension st) q (basis_values vals) = Inr G
        \<and> formulation st = ''LinearElasticity''
        \<and> nth_checked (density_mat st) e = Inr rho
        \<and> c_pow rho (density_power st - 1) = Inr pw
        \<and> nth_checked (quadrature_weights vals) q = Inr w
        \<and> nth_checked (vals_det vals) q = Inr dt \<longrightarrow>
        topology_contribution st ts e vals q
        = Inr (density_power st * pw
               * (\<Sum>i<dimension st. \<Sum>l<dimension st.
                    (mu * (G ! i ! l + G ! l ! i)
                     + lam * (\<Sum>k<dimension st. G ! k ! k) * (if i = l then 1 else 0))
                    * G ! i ! l)
               * w * dt))"
proof (intro conjI impI)
  assume "Some (address param) = elastic_param' C"
  then show "ComplianceObjective_compute_partial_gradient C param
             = Some (Inl (RuntimeError ''Not implemented!''))"
    by (subst ComplianceObjective_compute_partial_gradient.simps) simp
next
  assume other: "Some (address param) \<noteq> elastic_param' C \<and> Some (address param) \<noteq> shape_param' C"
  show "\<exists>r. ComplianceObjective_compute_partial_gradient C param = Some r
           \<and> (\<forall>v. r = Inr v \<longrightarrow> length v = full_dim param)
           \<and> (Some (address param) \<noteq> topo_param' C \<longrightarrow> r = Inr (vec_zero (full_dim param)))"
  proof (cases "Some (address param) = topo_param' C")
    case True
    with other have "ComplianceObjective_compute_partial_gradient C param
          = Some (topology_term (state' C) (time_step' C) (vec_zero (full_dim param)))"
      by (subst ComplianceObjective_compute_partial_gradient.simps) simp
    moreover have "\<forall>v. topology_term (state' C) (time_step' C) (vec_zero (full_dim param)) = Inr v
                     \<longrightarrow> length v = full_dim param"
      by (auto dest: topology_term_length simp: vec_zero_def)
    ultimately show ?thesis using True by simp
  next
    case False
    with other have "ComplianceObjective_compute_partial_gradient C param
          = Some (Inr (vec_zero (full_dim param)))"
      by (subst ComplianceObjective_compute_partial_gradient.simps) simp
    then show ?thesis by (simp add: vec_zero_def)
  qed
next
  assume other: "Some (address param) \<noteq> elastic_param' C \<and> Some (address param) \<noteq> shape_param' C"
    and topo: "Some (address param) = topo_param' C \<and> n_bases (state' C) \<le> full_dim param
             \<and> (\<forall>e<n_bases (state' C).
                  \<forall>q<length (quadrature_weights (ass_vals_cache_compute (state' C) e)).
                    topology_contribution (state' C) (time_step' C) e
                      (ass_vals_cache_compute (state' C) e) q = Inr (c e q))"
  from other topo have "ComplianceObjective_compute_partial_gradient C param
        = Some (topology_term (state' C) (time_step' C) (vec_zero (full_dim param)))"
    by (subst ComplianceObjective_compute_partial_gradient.simps) simp
  also from topo have "topology_term (state' C) (time_step' C) (vec_zero (full_dim param))
        = Inr (map (\<lambda>e. if e < n_bases (state' C)
                          then \<Sum>q<length (quadrature_weights
                                            (ass_vals_cache_compute (state' C) e)). c e q
                          else 0)
                 [0..<full_dim param])"
    by (intro topology_term_sum) simp_all
  finally show "ComplianceObjective_compute_partial_gradient C param
             = Some (Inr (map (\<lambda>e. if e < n_bases (state' C)
                                     then \<Sum>q<length (quadrature_weights
                                                       (ass_vals_cache_compute (state' C) e)). c e q
                                     else 0)
                            [0..<full_dim param]))" .
next
  assume "nth_checked (quadrature_points vals) q = Inr pt
        \<and> nth_checked (vals_val vals) q = Inr vl
        \<and> lambda_mu st pt vl e = (lam, mu)
        \<and> nth_checked (diff_cached st) ts = Inr u
        \<and> compute_grad_u_q u (dimension st) q (basis_values vals) = Inr G
        \<and> formulation st = ''LinearElasticity''
        \<and> nth_checked (density_mat st) e = Inr rho
        \<and> c_pow rho (density_power st - 1) = Inr pw
        \<and> nth_checked (quadrature_weights vals) q = Inr w
        \<and> nth_checked (vals_det vals) q = Inr dt"
  then show "topology_contribution st ts e vals q
        = Inr (density_power st * pw
               * (\<Sum>i<dimension st. \<Sum>l<dimension st.
                    (mu * (G ! i ! l + G ! l ! i)
                     + lam * (\<Sum>k<dimension st. G ! k ! k) * (if i = l then 1 else 0))
                    * G ! i ! l)
               * w * dt)"
    by (elim conjE) (rule topology_contribution_formula; assumption)
qed

theorem compliance_partial_gradient_witness:
  "Some (address \<lparr>address = 1, full_dim = 3\<rparr>) = elastic_param' small_compliance
   \<and> ComplianceObjective_compute_partial_gradient small_compliance \<lparr>address = 1, full_dim = 3\<rparr>
       = Some (Inl (RuntimeError ''Not implemented!''))
   \<and> Some (address \<lparr>address = 4, full_dim = 3\<rparr>) \<noteq> elastic_param' small_compliance
   \<and> Some (address \<lparr>address = 4, full_dim = 3\<rparr>) \<noteq> shape_param' small_compliance
   \<and> Some (address \<lparr>address = 4, full_dim = 3\<rparr>) \<noteq> topo_param' small_compliance
   \<and> ComplianceObjective_compute_partial_gradient small_compliance \<lparr>address = 4, full_dim = 3\<rparr>
       = Some (Inr [0, 0, 0])
   \<and> Some (address \<lparr>address = 3, full_dim = 3\<rparr>) = topo_param' small_compliance
   \<and> n_bases (state' small_compliance) \<le> full_dim \<lparr>address = 3, full_dim = 3\<rparr>
   \<and> compute_grad_u_q [7, 9, 1, 2] (dimension plane_state) 0
         (basis_values (ass_vals_cache_compute plane_state 0)) = Inr [[2, 6], [4, 12]]
   \<and> compute_grad_u_q [7, 9, 1, 2] (dimension plane_state) 1
         (basis_values (ass_vals_cache_compute plane_state 0)) = Inr [[8, 2], [11, 4]]
   \<and> c_pow 2 (density_power plane_state - 1) = Inr 4
   \<and> topology_contribution plane_state 1 0 (ass_vals_cache_compute plane_state 0) 0 = Inr 24768
   \<and> topology_contribution plane_state 1 0 (ass_vals_cache_compute plane_state 0) 1 = Inr 19248
   \<and> topology_contribution plane_state 1 1 (ass_vals_cache_compute plane_state 1) 0 = Inr 7074
   \<and> topology_contribution plane_state 1 1 (ass_vals_cache_compute plane_state 1) 1 = Inr 11352
   \<and> ComplianceObjective_compute_partial_gradient small_compliance \<lparr>address = 3, full_dim = 3\<rparr>
       = Some (Inr [44016, 18426, 0])"
proof -
  note by_param = compliance_partial_gradient_by_parameter
  let ?V = "\<lambda>e. ass_vals_cache_compute plane_state e"
  let ?c = "\<lambda>e q :: nat. if e = 0 then (if q = 0 then 24768 else 19248)
                         else (if q = 0 then 7074 else 11352 :: real)"
  have grad0: "compute_grad_u_q [7, 9, 1, 2] (dimension plane_state) 0 (basis_values (?V e))
              = Inr [[2, 6], [4, 12]]" for e
    using plane_grad_u_q_first by (simp add: plane_state_def)
  have grad1: "compute_grad_u_q [7, 9, 1, 2] (dimension plane_state) (Suc 0) (basis_values (?V e))
              = Inr [[8, 2], [11, 4]]" for e
    using plane_grad_u_q_second by (simp add: plane_state_def)
  have pw: "c_pow 2 (density_power plane_state - 1) = Inr 4"
    "c_pow 1 (density_power plane_state - 1) = Inr 1"
    by (simp_all add: plane_state_def c_pow_def)
  have hyp0: "nth_checked (quadrature_points (?V e)) 0 = Inr [5, 0]
        \<and> nth_checked (vals_val (?V e)) 0 = Inr [0, 1]
        \<and> lambda_mu plane_state [5, 0] [0, 1] e = (5 + real e, 1)
        \<and> nth_checked (diff_cached plane_state) 1 = Inr [7, 9, 1, 2]
        \<and> compute_grad_u_q [7, 9, 1, 2] (dimension plane_state) 0 (basis_values (?V e))
            = Inr [[2, 6], [4, 12]]
        \<and> formulation plane_state = ''LinearElasticity''
        \<and> nth_checked (density_mat plane_state) e = Inr (if e = 0 then 2 else 1)
        \<and> c_pow (if e = 0 then 2 else 1) (density_power plane_state - 1)
            = Inr (if e = 0 then 4 else 1)
        \<and> nth_checked (quadrature_weights (?V e)) 0 = Inr (1 / 2)
        \<and> nth_checked (vals_det (?V e)) 0 = Inr 3" if "e < 2" for e
  proof -
    from that have "e = 0 \<or> e = 1" by auto
    then show ?thesis
      by (auto simp: grad0 pw) (simp_all add: plane_state_def nth_checked_def)
  qed
  have hyp1: "nth_checked (quadrature_points (?V e)) 1 = Inr [1, 0]
        \<and> nth_checked (vals_val (?V e)) 1 = Inr [0, 2]
        \<and> lambda_mu plane_state [1, 0] [0, 2] e = (1 + real e, 2)
        \<and> nth_checked (diff_cached plane_state) 1 = Inr [7, 9, 1, 2]
        \<and> compute_grad_u_q [7, 9, 1, 2] (dimension plane_state) 1 (basis_values (?V e))
            = Inr [[8, 2], [11, 4]]
        \<and> formulation plane_state = ''LinearElasticity''
        \<and> nth_checked (density_mat plane_state) e = Inr (if e = 0 then 2 else 1)
        \<and> c_pow (if e = 0 then 2 else 1) (density_power plane_state - 1)
            = Inr (if e = 0 then 4 else 1)
        \<and> nth_checked (quadrature_weights (?V e)) 1 = Inr 2
        \<and> nth_checked (vals_det (?V e)) 1 = Inr (1 + real e)" if "e < 2" for e
  proof -
    from that have "e = 0 \<or> e = 1" by auto
    then show ?thesis
      by (auto simp: grad1 pw) (simp_all add: plane_state_def nth_checked_def)
  qed
  have contrib0: "topology_contribution plane_state 1 e (?V e) 0 = Inr (?c e 0)" if "e < 2" for e
  proof -
    from that have "e = 0 \<or> e = 1" by auto
    then show ?thesis
      using by_param [where st = plane_state and ts = 1 and e = e and vals = "?V e" and q = 0,
          THEN conjunct2, THEN conjunct2, THEN mp, OF hyp0 [OF that]]
      by (auto simp: plane_state_def lessThan_Suc numeral_2_eq_2)
  qed
  have contrib1: "topology_contribution plane_state 1 e (?V e) 1 = Inr (?c e 1)" if "e < 2" for e
  proof -
    from that have "e = 0 \<or> e = 1" by auto
    then show ?thesis
      using by_param [where st = plane_state and ts = 1 and e = e and vals = "?V e" and q = 1,
          THEN conjunct2, THEN conjunct2, THEN mp, OF hyp1 [OF that]]
      by (auto simp: plane_state_def lessThan_Suc numeral_2_eq_2)
  qed
  have all: "\<forall>e<n_bases (state' small_compliance).
               \<forall>q<length (quadrature_weights (ass_vals_cache_compute (state' small_compliance) e)).
                 topology_contribution (state' small_compliance) (time_step' small_compliance) e
                   (ass_vals_cache_compute (state' small_compliance) e) q
                 = Inr (?c e q)"
  proof (intro allI impI)
    fix e q
    assume "e < n_bases (state' small_compliance)"
      and "q < length (quadrature_weights (ass_vals_cache_compute (state' small_compliance) e))"
    then have e: "e < 2" and "q = 0 \<or> q = 1"
      by (auto simp: small_compliance_def plane_state_def)
    then show "topology_contribution (state' small_compliance)
        (time_step' small_compliance) e (ass_vals_cache_compute (state' small_compliance) e) q
        = Inr (?c e q)"
      using contrib0 [OF e] contrib1 [OF e] by (auto simp: small_compliance_def)
  qed
  have sel: "Some (address \<lparr>address = 3, full_dim = 3\<rparr>) \<noteq> elastic_param' small_compliance
             \<and> Some (address \<lparr>address = 3, full_dim = 3\<rparr>) \<noteq> shape_param' small_compliance"
    and top: "Some (address \<lparr>address = 3, full_dim = 3\<rparr>) = topo_param' small_compliance"
    and le: "n_bases (state' small_compliance) \<le> full_dim \<lparr>address = 3, full_dim = 3\<rparr>"
    by (simp_all add: small_compliance_def plane_state_def)
  have t: "ComplianceObjective_compute_partial_gradient small_compliance \<lparr>address = 3, full_dim = 3\<rparr>
           = Some (Inr [44016, 18426, 0])"
    using by_param [where C = small_compliance and param = "\<lparr>address = 3, full_dim = 3\<rparr>"
        and c = ?c,
        THEN conjunct2, THEN conjunct1, THEN mp, OF sel, THEN conjunct2, THEN mp,
        OF conjI [OF top conjI [OF le all]]]
    by (simp add: small_compliance_def plane_state_def upt_rec numeral_3_eq_3 lessThan_Suc numeral_2_eq_2)
  have el: "Some (address \<lparr>address = 1, full_dim = 3\<rparr>) = elastic_param' small_compliance"
    by (simp add: small_compliance_def)
  have oth: "Some (address \<lparr>address = 4, full_dim = 3\<rparr>) \<noteq> elastic_param' small_compliance
             \<and> Some (address \<lparr>address = 4, full_dim = 3\<rparr>) \<noteq> shape_param' small_compliance"
    and nt: "Some (address \<lparr>address = 4, full_dim = 3\<rparr>) \<noteq> topo_param' small_compliance"
    by (simp_all add: small_compliance_def)
  have e1: "ComplianceObjective_compute_partial_gradient small_compliance \<lparr>address = 1, full_dim = 3\<rparr>
            = Some (Inl (RuntimeError ''Not implemented!''))"
    using by_param [where C = small_compliance and param = "\<lparr>address = 1, full_dim = 3\<rparr>",
        THEN conjunct1, THEN mp, OF el] .
  have z: "ComplianceObjective_compute_partial_gradient small_compliance \<lparr>address = 4, full_dim = 3\<rparr>
           = Some (Inr [0, 0, 0])"
    using by_param [where C = small_compliance and param = "\<lparr>address = 4, full_dim = 3\<rparr>",
        THEN conjunct2, THEN conjunct1, THEN mp, OF oth, THEN conjunct1] nt
    by (auto simp: vec_zero_def numeral_3_eq_3)
  from el e1 oth nt z top le grad0 [of 0] grad1 [of 0] pw(1) contrib0 [of 0] contrib1 [of 0]
    contrib0 [of 1] contrib1 [of 1] t
  show ?thesis by simp
qed

subsection \<open>ALSolver\<close>

text \<open>
  The weight changes in one place of the loop body, the states at the loop test keep
  the reduced vector an image of the solution, and a loop that returns has run through
  reachable states to one that fails the loop test.
\<close>

lemma al_body_weight:
  assumes "al_body A c initial_sol initial_error S = Inr S'"
  shows "al_weight S' = al_weight S
         \<or> (al_weight S < max_al_weight A \<and> al_weight S' = al_weight S * scaling A)"
  using assms
  by (auto simp: al_body_def Let_def split: if_splits prod.splits)

lemma al_body_reduced:
  assumes "al_body A c initial_sol initial_error S = Inr S'"
  shows "\<exists>e. tmp_sol S' = full_to_reduced c e (sol S')"
  using assms
  by (auto simp: al_body_def Let_def split: if_splits prod.splits)

lemma al_reachable_weight:
  assumes "al_reachable A c initial_sol initial_error S0 S"
  shows "al_weight S = al_weight S0
         \<or> (\<exists>w. w < max_al_weight A \<and> al_weight S = w * scaling A)"
  using assms
proof (induction rule: al_reachable.induct)
  case start
  then show ?case by simp
next
  case (iteration S S')
  from al_body_weight [OF iteration.hyps(3)] iteration.IH show ?case by auto
qed

lemma al_reachable_positive:
  assumes "al_reachable A c initial_sol initial_error S0 S"
    and "0 < al_weight S0" and "1 \<le> scaling A"
  shows "0 < al_weight S"
  using assms
proof (induction rule: al_reachable.induct)
  case start
  then show ?case by simp
next
  case (iteration S S')
  then have pos: "0 < al_weight S" by simp
  from al_body_weight [OF iteration.hyps(3)] show ?case
  proof
    assume "al_weight S' = al_weight S"
    with pos show ?thesis by simp
  next
    assume "al_weight S < max_al_weight A \<and> al_weight S' = al_weight S * scaling A"
    moreover from pos iteration.prems(2) have "0 < al_weight S * scaling A"
      by (simp add: mult_pos_pos)
    ultimately show ?thesis by simp
  qed
qed

lemma al_reachable_reduced:
  assumes "al_reachable A c initial_sol initial_error S0 S"
    and "\<exists>e. tmp_sol S0 = full_to_reduced c e (sol S0)"
  shows "\<exists>e. tmp_sol S = full_to_reduced c e (sol S)"
  using assms by (induction rule: al_reachable.induct) (auto dest: al_body_reduced)

lemma al_loop_exit:
  assumes "al_loop A c initial_sol initial_error S0 = Some (Inr S)"
  shows "al_reachable A c initial_sol initial_error S0 S \<and> \<not> al_guard c S"
proof -
  have "\<forall>S. r = Inr S \<longrightarrow>
          (\<forall>S00. al_reachable A c initial_sol initial_error S00 S0 \<longrightarrow>
                 al_reachable A c initial_sol initial_error S00 S) \<and> \<not> al_guard c S"
    if "al_loop A c initial_sol initial_error S0 = Some r" for r
    using that
  proof (induction rule: al_loop.raw_induct [rotated 1, consumes 1, case_names unfold])
    case (unfold loop A c initial_sol initial_error S0 r)
    show ?case
    proof (cases "al_guard c S0")
      case False
      with unfold.hyps show ?thesis by auto
    next
      case True
      show ?thesis
      proof (cases "al_body A c initial_sol initial_error S0")
        case (Inl err)
        with True unfold.hyps show ?thesis by auto
      next
        case (Inr S1)
        with True unfold.hyps have "loop A c initial_sol initial_error S1 = Some r" by simp
        from unfold.IH [OF this] True Inr show ?thesis
          by (auto intro: al_reachable.iteration)
      qed
    qed
  qed
  from this [OF assms] show ?thesis by (auto intro: al_reachable.start)
qed


text \<open>The definitions unfolded to run the solver on the collaborators \<open>counting\<close>.\<close>

lemmas al_eval = al_initial_state_def al_guard_def infeasible_def al_body_def
  set_al_weight_def call_def eta_of_def counting_def solver_def Let_def

text \<open>
  C1, as stated: for any initial weight, scaling and maximum, the weight never
  decreases and never exceeds \<^verbatim>\<open>max_al_weight\<close>. With initial weight \<open>1\<close>, scaling \<open>10\<close> and
  maximum \<open>5\<close> the two iterations of the run on \<open>counting\<close> end with the weight \<open>10\<close>; with
  scaling \<open>1/2\<close> they end with the weights \<open>1/2\<close> and \<open>1/4\<close>, below the initial \<open>1\<close>.
\<close>

theorem al_weight_counterexample:
  "map_option (map_sum id (\<lambda>r. post_subsolve_weights (calls (fst r))))
     (solve_al (solver 1 10 5) counting \<lparr>env = 0, calls = []\<rparr> [0]) = Some (Inr [10, 10])
   \<and> max_al_weight (solver 1 10 5) = 5
   \<and> map_option (map_sum id (\<lambda>r. post_subsolve_weights (calls (fst r))))
     (solve_al (solver 1 (1 / 2) 5) counting \<lparr>env = 0, calls = []\<rparr> [0])
       = Some (Inr [1 / 2, 1 / 4])
   \<and> initial_al_weight (solver 1 (1 / 2) 5) = 1"
  by (simp add: solve_al_def al_eval al_loop.simps)

text \<open>
  C1, amended. The weight starts at \<^verbatim>\<open>initial_al_weight\<close>. At every loop test of every
  run it is the initial weight or the product of \<^verbatim>\<open>scaling\<close> and a weight below
  \<^verbatim>\<open>max_al_weight\<close>, so for a scaling that is not negative it never exceeds the larger
  of \<^verbatim>\<open>initial_al_weight\<close> and \<^verbatim>\<open>max_al_weight * scaling\<close>; for a scaling of at least
  \<open>1\<close> and a positive initial weight it does not decrease from one iteration to the
  next.
\<close>

theorem al_weight_trajectory:
  assumes "al_reachable A c x initial_error (al_initial_state A c w x) S"
  shows "al_weight (al_initial_state A c w x) = initial_al_weight A
       \<and> (al_weight S = initial_al_weight A
            \<or> (\<exists>v. v < max_al_weight A \<and> al_weight S = v * scaling A))
       \<and> (0 \<le> scaling A \<longrightarrow>
            al_weight S \<le> max (initial_al_weight A) (max_al_weight A * scaling A))
       \<and> (1 \<le> scaling A \<and> 0 < initial_al_weight A \<longrightarrow>
            (\<forall>S'. al_guard c S \<and> al_body A c x initial_error S = Inr S' \<longrightarrow>
                  al_weight S \<le> al_weight S'))"
proof -
  have init: "al_weight (al_initial_state A c w x) = initial_al_weight A"
    by (simp add: al_initial_state_def Let_def)
  have shape: "al_weight S = initial_al_weight A
               \<or> (\<exists>v. v < max_al_weight A \<and> al_weight S = v * scaling A)"
    using al_reachable_weight [OF assms] init by simp
  have bound: "al_weight S \<le> max (initial_al_weight A) (max_al_weight A * scaling A)"
    if "0 \<le> scaling A"
    using shape
  proof
    assume "al_weight S = initial_al_weight A"
    then show ?thesis by simp
  next
    assume "\<exists>v. v < max_al_weight A \<and> al_weight S = v * scaling A"
    then obtain v where "v < max_al_weight A" and "al_weight S = v * scaling A" by blast
    with that have "al_weight S \<le> max_al_weight A * scaling A"
      by (simp add: mult_right_mono)
    then show ?thesis by simp
  qed
  have mono: "al_weight S \<le> al_weight S'"
    if "1 \<le> scaling A" and "0 < initial_al_weight A"
      and "al_body A c x initial_error S = Inr S'" for S'
  proof -
    from al_reachable_positive [OF assms] that init have pos: "0 < al_weight S" by simp
    from al_body_weight [OF that(3)] show ?thesis
    proof
      assume "al_weight S' = al_weight S"
      then show ?thesis by simp
    next
      assume "al_weight S < max_al_weight A \<and> al_weight S' = al_weight S * scaling A"
      moreover from pos that(1) have "al_weight S * 1 \<le> al_weight S * scaling A"
        by (intro mult_left_mono) simp_all
      ultimately show ?thesis by simp
    qed
  qed
  from init shape bound mono show ?thesis by blast
qed

theorem al_weight_trajectory_witness:
  "al_reachable (solver 1 2 5) counting [0] 1
     (al_initial_state (solver 1 2 5) counting \<lparr>env = 0, calls = []\<rparr> [0]) one_iteration
   \<and> 1 \<le> scaling (solver 1 2 5) \<and> 0 < initial_al_weight (solver 1 2 5)
   \<and> al_weight (al_initial_state (solver 1 2 5) counting \<lparr>env = 0, calls = []\<rparr> [0]) = 1
   \<and> al_weight one_iteration = 2
   \<and> al_weight one_iteration
       \<le> max (initial_al_weight (solver 1 2 5)) (max_al_weight (solver 1 2 5) * scaling (solver 1 2 5))
   \<and> al_weight (al_initial_state (solver 1 2 5) counting \<lparr>env = 0, calls = []\<rparr> [0])
       \<le> al_weight one_iteration"
proof -
  let ?A = "solver 1 2 5"
  let ?S0 = "al_initial_state ?A counting \<lparr>env = 0, calls = []\<rparr> [0]"
  have g: "al_guard counting ?S0" by (simp add: al_eval)
  have b: "al_body ?A counting [0] 1 ?S0 = Inr one_iteration"
    by (simp add: al_eval one_iteration_def)
  have r: "al_reachable ?A counting [0] 1 ?S0 one_iteration"
    by (rule al_reachable.iteration [OF al_reachable.start g b])
  have p: "1 \<le> scaling ?A \<and> 0 < initial_al_weight ?A" by (simp add: solver_def)
  from al_weight_trajectory [where A = ?A and c = counting and x = "[0]" and initial_error = 1
        and w = "\<lparr>env = 0, calls = []\<rparr>" and S = ?S0, OF al_reachable.start]
    p g b
  have m: "al_weight ?S0 \<le> al_weight one_iteration" by blast
  from al_weight_trajectory [OF r] p
  have "al_weight one_iteration
        \<le> max (initial_al_weight ?A) (max_al_weight ?A * scaling ?A)"
    by simp
  moreover have "al_weight ?S0 = 1" by (simp add: al_initial_state_def solver_def Let_def)
  moreover have "al_weight one_iteration = 2" by (simp add: one_iteration_def)
  ultimately show ?thesis using r p m by simp
qed

text \<open>
  C2. When \<^verbatim>\<open>solve_al\<close> returns, the returned solution is the solution of a loop state
  that failed the loop test: with its reduced vector and in the shared state of that
  test, the objective value is finite, \<^verbatim>\<open>is_step_valid\<close> holds and
  \<^verbatim>\<open>is_step_collision_free\<close> holds. After the test the call only ends the line search
  and restores the iteration budget.
\<close>

theorem solve_al_returns_feasible:
  assumes "solve_al A c w x = Some (Inr (w', x'))"
  shows "\<exists>S. al_reachable A c x (pen_compute_error c (env w) x) (al_initial_state A c w x) S
           \<and> sol S = x'
           \<and> w' = call (SetIterations (iterations c (env w)))
                     (\<lambda>e. set_iterations c e (iterations c (env w)))
                     (call LineSearchEnd (line_search_end c) (world S))
           \<and> (\<exists>e. tmp_sol S = full_to_reduced c e x')
           \<and> isfinite (problem_value c (env (world S)) (tmp_sol S))
           \<and> is_step_valid c (env (world S)) x' (tmp_sol S)
           \<and> is_step_collision_free c (env (world S)) x' (tmp_sol S)"
proof -
  let ?S0 = "al_initial_state A c w x"
  let ?err = "pen_compute_error c (env w) x"
  from assms obtain S where loop: "al_loop A c x ?err ?S0 = Some (Inr S)"
    and res: "w' = call (SetIterations (iterations c (env w)))
                     (\<lambda>e. set_iterations c e (iterations c (env w)))
                     (call LineSearchEnd (line_search_end c) (world S))" "x' = sol S"
    by (auto simp: solve_al_def Let_def split: if_splits option.splits sum.splits)
  from al_loop_exit [OF loop]
  have reach: "al_reachable A c x ?err ?S0 S" and exit: "\<not> al_guard c S" by simp_all
  have "\<exists>e. tmp_sol ?S0 = full_to_reduced c e (sol ?S0)"
    by (auto simp: al_initial_state_def Let_def)
  from al_reachable_reduced [OF reach this] have "\<exists>e. tmp_sol S = full_to_reduced c e (sol S)" .
  with reach exit res show ?thesis
    by (auto simp: al_guard_def infeasible_def)
qed

theorem solve_al_returns_feasible_witness:
  "solve_al (solver 1 10 5) counting \<lparr>env = 0, calls = []\<rparr> [0] = Some (Inr (counting_result, [0]))
   \<and> isfinite (problem_value counting (env counting_result) [0])
   \<and> is_step_valid counting (env counting_result) [0] [0]
   \<and> is_step_collision_free counting (env counting_result) [0] [0]"
proof -
  have run: "solve_al (solver 1 10 5) counting \<lparr>env = 0, calls = []\<rparr> [0]
             = Some (Inr (counting_result, [0]))"
    by (simp add: solve_al_def al_eval al_loop.simps counting_result_def)
  from solve_al_returns_feasible [OF run] obtain S :: "nat al_state" where
    w: "counting_result
        = call (SetIterations (iterations counting (env \<lparr>env = 0 :: nat, calls = []\<rparr>)))
            (\<lambda>e. set_iterations counting e (iterations counting (env \<lparr>env = 0 :: nat, calls = []\<rparr>)))
            (call LineSearchEnd (line_search_end counting) (world S))"
    and v: "is_step_valid counting (env (world S)) [0] (tmp_sol S)"
    by blast
  from arg_cong [OF w, of env] have "env counting_result = env (world S)"
    by (simp add: call_def counting_def)
  with v have "is_step_valid counting (env counting_result) [0] [0]" by (simp add: counting_def)
  with run show ?thesis by (simp add: counting_def)
qed

text \<open>
  C3. When the solution handed to \<^verbatim>\<open>solve_reduced\<close> has a non-finite objective value,
  an invalid step or a colliding step, the call ends with an exception and the solution
  unchanged, and no call of the minimizer is made; when the size assertion holds, the
  exception is the runtime error "Failed to apply boundary conditions; solve with
  augmented lagrangian first!", raised right after \<^verbatim>\<open>line_search_begin\<close>.
\<close>

theorem solve_reduced_rejects_infeasible:
  assumes "infeasible c (line_search_begin c (env w) x (full_to_reduced c (env w) x)) x
             (full_to_reduced c (env w) x)"
  shows "(length x = full_size c (env w) \<longrightarrow>
            solve_reduced A c w x
            = (Some (RuntimeError ''Failed to apply boundary conditions; solve with augmented lagrangian first!''),
               call LineSearchBegin (\<lambda>e. line_search_begin c e x (full_to_reduced c (env w) x)) w,
               x))
       \<and> fst (solve_reduced A c w x) \<noteq> None
       \<and> Minimize \<notin> set (drop (length (calls w)) (calls (fst (snd (solve_reduced A c w x)))))
       \<and> snd (snd (solve_reduced A c w x)) = x"
  using assms by (simp add: solve_reduced_def Let_def call_def)

theorem solve_reduced_rejects_infeasible_witness:
  "infeasible counting (line_search_begin counting (env \<lparr>env = 0, calls = []\<rparr>) [0]
       (full_to_reduced counting (env \<lparr>env = 0, calls = []\<rparr>) [0])) [0]
       (full_to_reduced counting (env \<lparr>env = 0, calls = []\<rparr>) [0])
   \<and> length [0 :: real] = full_size counting (env \<lparr>env = 0 :: nat, calls = []\<rparr>)
   \<and> solve_reduced (solver 1 10 5) counting \<lparr>env = 0, calls = []\<rparr> [0]
       = (Some (RuntimeError ''Failed to apply boundary conditions; solve with augmented lagrangian first!''),
          \<lparr>env = 0, calls = [LineSearchBegin]\<rparr>, [0])"
  using solve_reduced_rejects_infeasible [of counting "\<lparr>env = 0, calls = []\<rparr>" "[0]" "solver 1 10 5"]
  by (simp add: counting_def infeasible_def call_def)

text \<open>On a feasible solution of the right size the minimizer is called.\<close>

lemma solve_reduced_feasible_minimizes:
  assumes "\<not> infeasible c (line_search_begin c (env w) x (full_to_reduced c (env w) x)) x
             (full_to_reduced c (env w) x)"
    and "length x = full_size c (env w)"
  shows "Minimize \<in> set (drop (length (calls w)) (calls (fst (snd (solve_reduced A c w x)))))"
  using assms
  by (simp add: solve_reduced_def Let_def call_def split: prod.splits option.splits)


lemma solve_reduced_counting_feasible:
  "solve_reduced (solver 1 10 5) counting \<lparr>env = 2, calls = []\<rparr> [0]
   = (None, \<lparr>env = 3, calls = [LineSearchBegin, ProblemInit, UpdateBarrierStiffness, Minimize,
                                  PostSubsolve 0]\<rparr>, [0])"
  by (simp add: solve_reduced_def counting_def infeasible_def call_def)

end
